theory Spec2Isabelle
  imports Main "HOL-Library.Sublist"
begin

section \<open>Errors, strings and the standard library\<close>

text \<open>
  Go errors are values.  \<open>errors_New\<close> is \<^verbatim>\<open>errors.New(msg)\<close>, \<open>fmt_Errorf\<close> is
  \<^verbatim>\<open>fmt.Errorf("msg: %w", err)\<close>, \<open>ErrNotExist\<close> is \<^verbatim>\<open>os.ErrNotExist\<close> and \<open>SysError\<close> is any
  other error handed back by the operating system, the network or a decoder.
\<close>

datatype error =
    errors_New string
  | fmt_Errorf string error
  | ErrNotExist
  | SysError string

type_synonym path = string

text \<open>A file system maps a path to the bytes stored there.\<close>

type_synonym fs = "path \<Rightarrow> string option"

text \<open>\<^verbatim>\<open>strings.HasSuffix\<close>, \<^verbatim>\<open>strings.Contains\<close>: byte-wise, as in Go.\<close>

definition strings_HasSuffix :: "string \<Rightarrow> string \<Rightarrow> bool" where
  "strings_HasSuffix s suf = suffix suf s"

definition strings_Contains :: "string \<Rightarrow> string \<Rightarrow> bool" where
  "strings_Contains s sub = sublist sub s"

text \<open>
  \<^verbatim>\<open>strings.ToLower\<close> on the ASCII letters; every other byte is kept (the asset names the
  release feed carries are ASCII file names).
\<close>

definition lower_char :: "char \<Rightarrow> char" where
  "lower_char c =
     (let n = (of_char c :: nat) in if 65 \<le> n \<and> n \<le> 90 then char_of (n + 32) else c)"

definition strings_ToLower :: "string \<Rightarrow> string" where
  "strings_ToLower s = map lower_char s"

text \<open>
  \<^verbatim>\<open>strings.LastIndex(s, sep)\<close>: the greatest \<open>i\<close> with \<open>sep\<close> a prefix of \<open>s[i:]\<close>, or \<open>-1\<close>.
  The candidates are tried from the end of \<open>s\<close> downwards.
\<close>

fun last_index_from :: "nat \<Rightarrow> string \<Rightarrow> string \<Rightarrow> int" where
  "last_index_from 0 s sep = (if prefix sep s then 0 else - 1)"
| "last_index_from (Suc i) s sep =
     (if prefix sep (drop (Suc i) s) then int (Suc i) else last_index_from i s sep)"

definition strings_LastIndex :: "string \<Rightarrow> string \<Rightarrow> int" where
  "strings_LastIndex s sep = last_index_from (length s) s sep"

text \<open>\<^verbatim>\<open>strconv.FormatInt(n, 10)\<close>.\<close>

definition digit_char :: "nat \<Rightarrow> char" where
  "digit_char d = char_of (48 + d)"

fun uitoa :: "nat \<Rightarrow> string" where
  "uitoa n = (if n < 10 then [digit_char n] else uitoa (n div 10) @ [digit_char (n mod 10)])"

declare uitoa.simps [simp del]

definition strconv_FormatInt :: "int \<Rightarrow> string" where
  "strconv_FormatInt n = (if n < 0 then CHR ''-'' # uitoa (nat (- n)) else uitoa (nat n))"

text \<open>The number a string of decimal digits stands for.\<close>

definition digits_value :: "string \<Rightarrow> nat" where
  "digits_value s = foldl (\<lambda>a c. 10 * a + (of_char c - 48)) 0 s"

section \<open>Release descriptors and the process state\<close>

record asset =
  asset_Name :: string
  DownloadURL :: string

record GithubRelease =
  Name :: string
  TagName :: string
  Assets :: "asset list"

text \<open>
  An HTTP response: status code and text, the \<^verbatim>\<open>Content-Length\<close> header as the server sent
  it (empty when absent), the bytes the body stream yields before it ends, and the error it
  ends with (\<open>None\<close> for a clean end of stream).
\<close>

record http_response =
  StatusCode :: nat
  Status :: string
  ContentLength :: string
  Body :: string
  BodyErr :: "error option"

text \<open>
  The package-level variables of \<^verbatim>\<open>github_downloader.go\<close> and \<^verbatim>\<open>self_updater.go\<close>, the
  files on disk, and the log of URLs requested so far.  A channel is the list of values
  sent on it.
\<close>

record state =
  ReleaseData :: GithubRelease
  GithubError :: "error option"
  GithubDoneChan :: "bool list"
  InstalledHash :: string
  LatestHash :: string
  IsDevInstall :: bool
  IsSelfOutdated :: bool
  SelfUpdateCheckDoneChan :: "bool list"
  files :: fs
  requests :: "string list"

text \<open>
  What the surroundings supply: build constants of package \<^verbatim>\<open>buildinfo\<close>, the platform,
  the install location (declared in a file of the platform layer), the network, the JSON
  decoder, path arithmetic, and the outcome of each system call that can be refused.
\<close>

record env =
  GOOS :: string
  InstallerTag :: string
  VersionUnknown :: string
  UiTypeIsCli :: bool
  VelocityDirectory :: path
  DevInstallVar :: string
  http_NewRequest :: "string \<Rightarrow> error option"
  http_Do :: "string \<Rightarrow> error + http_response"
  json_Decode :: "string \<Rightarrow> error + GithubRelease"
  path_Dir :: "path \<Rightarrow> path"
  path_Join :: "path \<Rightarrow> string \<Rightarrow> path"
  os_Stat :: "path \<Rightarrow> error + bool"
  os_Executable :: "error + path"
  MkdirAll_err :: "path \<Rightarrow> error option"
  OpenFile_err :: "path \<Rightarrow> error option"
  Write_fault :: "path \<Rightarrow> (nat \<times> error) option"
  os_TempDir :: path
  TempRandom :: nat
  CreateTemp_err :: "error option"
  Chmod_err :: "error option"
  Close_err :: "error option"
  Remove_err :: "path \<Rightarrow> error option"
  Rename_err :: "path \<Rightarrow> path \<Rightarrow> error option"
  Remove_old_err :: "nat \<Rightarrow> error option"

definition ReleaseUrl :: string where
  "ReleaseUrl = ''https://api.github.com/repos/Velocitcs/Velocity/releases/latest''"

definition InstallerReleaseUrl :: string where
  "InstallerReleaseUrl = ''https://api.github.com/repos/Velocitcy/Installer/releases/latest''"

definition empty_release :: GithubRelease where
  "empty_release = \<lparr>Name = [], TagName = [], Assets = []\<rparr>"

text \<open>The state at process start: the initial values of the package-level variables.\<close>

definition initial_state :: "fs \<Rightarrow> state" where
  "initial_state f =
     \<lparr>ReleaseData = empty_release, GithubError = None, GithubDoneChan = [],
      InstalledHash = ''None'', LatestHash = ''Unknown'', IsDevInstall = False,
      IsSelfOutdated = False, SelfUpdateCheckDoneChan = [], files = f, requests = []\<rparr>"

section \<open>github_downloader.go\<close>

text \<open>
  \<^verbatim>\<open>GetGithubRelease\<close>: build the request, send it, refuse a status of 300 or more, decode
  the body.
\<close>

definition GetGithubRelease :: "env \<Rightarrow> string \<Rightarrow> state \<Rightarrow> (error + GithubRelease) \<times> state" where
  "GetGithubRelease e url s =
     (case http_NewRequest e url of
        Some err \<Rightarrow> (Inl err, s)
      | None \<Rightarrow>
          (let s1 = s\<lparr>requests := requests s @ [url]\<rparr> in
           case http_Do e url of
             Inl err \<Rightarrow> (Inl err, s1)
           | Inr res \<Rightarrow>
               if StatusCode res \<ge> 300 then (Inl (errors_New (Status res)), s1)
               else (case json_Decode e (Body res) of
                       Inl err \<Rightarrow> (Inl err, s1)
                     | Inr data \<Rightarrow> (Inr data, s1))))"

text \<open>The deferred send of the fetch task: \<^verbatim>\<open>GithubDoneChan <- GithubError == nil\<close>.\<close>

definition send_done :: "state \<Rightarrow> state" where
  "send_done s = s\<lparr>GithubDoneChan := GithubDoneChan s @ [GithubError s = None]\<rparr>"

text \<open>
  The background task launched by \<^verbatim>\<open>InitGithubDownloader\<close>.  The slice \<^verbatim>\<open>data.Name[i:]\<close> is
  \<open>drop i\<close>; lemma \<open>LastIndex_range\<close> below shows that \<open>i\<close> is always within the string, so
  the slice never panics.
\<close>

definition githubFetchTask :: "env \<Rightarrow> state \<Rightarrow> state" where
  "githubFetchTask e s =
     (case GetGithubRelease e ReleaseUrl s of
        (Inl err, s1) \<Rightarrow> send_done (s1\<lparr>GithubError := Some err\<rparr>)
      | (Inr data, s1) \<Rightarrow>
          (let s2 = s1\<lparr>ReleaseData := data\<rparr>;
               i = strings_LastIndex (Name data) '' '' + 1;
               s3 = s2\<lparr>LatestHash := drop (nat i) (Name data)\<rparr>
           in send_done s3))"

text \<open>
  The marker \<^verbatim>\<open>// Velocity (\w+)\<close>: the leftmost place where the literal prefix is followed by
  at least one word character; the group is the longest run of word characters there.
\<close>

definition is_word_char :: "char \<Rightarrow> bool" where
  "is_word_char c =
     (let n = (of_char c :: nat)
      in (48 \<le> n \<and> n \<le> 57) \<or> (65 \<le> n \<and> n \<le> 90) \<or> (97 \<le> n \<and> n \<le> 122) \<or> n = 95)"

fun find_marker :: "string \<Rightarrow> string option" where
  "find_marker [] = None"
| "find_marker (c # cs) =
     (if prefix ''// Velocity '' (c # cs) \<and> takeWhile is_word_char (drop 12 (c # cs)) \<noteq> []
      then Some (takeWhile is_word_char (drop 12 (c # cs)))
      else find_marker cs)"

text \<open>
  The part of \<^verbatim>\<open>InitGithubDownloader\<close> after the task is launched: look for an existing
  install and read its hash.  A file that cannot be read is a file that is not there.
\<close>

definition scanLocalInstall :: "env \<Rightarrow> state \<Rightarrow> state" where
  "scanLocalInstall e s =
     (case os_Stat e (VelocityDirectory e) of
        Inl err \<Rightarrow> s
      | Inr isDir \<Rightarrow>
          (let VelocityFile =
                 (if isDir then path_Join e (VelocityDirectory e) ''main.js''
                  else VelocityDirectory e)
           in case files s VelocityFile of
                None \<Rightarrow> s
              | Some b \<Rightarrow>
                  (case find_marker b of
                     Some h \<Rightarrow> s\<lparr>InstalledHash := h\<rparr>
                   | None \<Rightarrow> s)))"

text \<open>
  \<^verbatim>\<open>InitGithubDownloader\<close> on the calling thread.  The boolean tells whether the background
  task \<open>githubFetchTask\<close> was launched; the task writes \<open>GithubError\<close>, \<open>ReleaseData\<close>,
  \<open>LatestHash\<close> and the channel, the calling thread writes \<open>InstalledHash\<close> only.
\<close>

definition InitGithubDownloader :: "env \<Rightarrow> state \<Rightarrow> bool \<times> state" where
  "InitGithubDownloader e s =
     (let s1 = s\<lparr>GithubDoneChan := []\<rparr>;
          s2 = s1\<lparr>IsDevInstall := (DevInstallVar e = ''1'')\<rparr>
      in if IsDevInstall s2 then (False, s2\<lparr>GithubDoneChan := GithubDoneChan s2 @ [True]\<rparr>)
         else (True, scanLocalInstall e s2))"

text \<open>
  The comparison of the two identifiers, as the fetch task makes and logs it:
  \<^verbatim>\<open>Ternary(LatestHash == InstalledHash, "up to date!", "outdated!")\<close>.  It is reached
  only outside dev-install mode, since a dev install returns before the task is launched.
\<close>

definition install_status :: "state \<Rightarrow> string" where
  "install_status s = (if LatestHash s = InstalledHash s then ''up to date!'' else ''outdated!'')"

subsection \<open>Downloading the builds\<close>

text \<open>\<^verbatim>\<open>http.Get\<close>: the request is logged, the answer is the network's.\<close>

definition http_Get :: "env \<Rightarrow> string \<Rightarrow> state \<Rightarrow> (error + http_response) \<times> state" where
  "http_Get e url s = (http_Do e url, s\<lparr>requests := requests s @ [url]\<rparr>)"

text \<open>
  \<^verbatim>\<open>os.OpenFile(p, O_WRONLY|O_CREATE|O_TRUNC, 0644)\<close>: the file exists and is empty afterwards.
\<close>

definition os_OpenFile :: "env \<Rightarrow> path \<Rightarrow> state \<Rightarrow> error + state" where
  "os_OpenFile e p s =
     (case OpenFile_err e p of
        Some err \<Rightarrow> Inl err
      | None \<Rightarrow> Inr (s\<lparr>files := (files s)(p \<mapsto> [])\<rparr>))"

text \<open>
  \<^verbatim>\<open>io.Copy(out, res.Body)\<close> into the freshly opened file at \<open>p\<close>: the bytes written and the
  error, if any.  A write fault after \<open>k\<close> bytes stops the copy there; otherwise every byte
  the stream yields is written and the error is the one the stream ended with.
\<close>

definition io_Copy :: "env \<Rightarrow> path \<Rightarrow> http_response \<Rightarrow> state \<Rightarrow> (int \<times> error option) \<times> state" where
  "io_Copy e p res s =
     (case Write_fault e p of
        Some (k, err) \<Rightarrow>
          if k < length (Body res)
          then ((int k, Some err), s\<lparr>files := (files s)(p \<mapsto> take k (Body res))\<rparr>)
          else ((int (length (Body res)), BodyErr res), s\<lparr>files := (files s)(p \<mapsto> Body res)\<rparr>)
      | None \<Rightarrow>
          ((int (length (Body res)), BodyErr res), s\<lparr>files := (files s)(p \<mapsto> Body res)\<rparr>))"

text \<open>
  What \<^verbatim>\<open>net/http\<close> promises about a response it hands over.  When the \<^verbatim>\<open>Content-Length\<close>
  header is a decimal number \<open>N\<close>, the body stream yields at most \<open>N\<close> bytes, and a stream that
  stops before \<open>N\<close> bytes ends with an error (\<^verbatim>\<open>io.ErrUnexpectedEOF\<close> when the connection was
  closed early), never with a clean end of stream.  Without such a header nothing is
  promised.
\<close>

definition io_ErrUnexpectedEOF :: error where
  "io_ErrUnexpectedEOF = SysError ''unexpected EOF''"

definition is_digit :: "char \<Rightarrow> bool" where
  "is_digit c = (48 \<le> (of_char c :: nat) \<and> (of_char c :: nat) \<le> 57)"

definition declared_length :: "http_response \<Rightarrow> nat option" where
  "declared_length res =
     (if ContentLength res \<noteq> [] \<and> list_all is_digit (ContentLength res)
      then Some (digits_value (ContentLength res)) else None)"

definition net_http_delivers :: "http_response \<Rightarrow> bool" where
  "net_http_delivers res =
     (case declared_length res of
        None \<Rightarrow> True
      | Some N \<Rightarrow> length (Body res) \<le> N \<and> (BodyErr res = None \<longrightarrow> length (Body res) = N))"

text \<open>The two tests of the asset loop in \<^verbatim>\<open>github_downloader.go\<close>, on the lowercased name.\<close>

definition is_legal_notice :: "string \<Rightarrow> bool" where
  "is_legal_notice lowerName = strings_HasSuffix lowerName ''.legal.txt''"

definition is_wanted :: "string \<Rightarrow> bool" where
  "is_wanted lowerName =
     (strings_Contains lowerName ''preload'' \<or>
      strings_Contains lowerName ''patcher'' \<or>
      strings_Contains lowerName ''velocitydesktopMain'' \<or>
      strings_Contains lowerName ''velocitydesktoprenderer'' \<or>
      (strings_Contains lowerName ''renderer'' \<and> \<not> strings_Contains lowerName ''velocitydesktop''))"

text \<open>
  The loop over \<^verbatim>\<open>ReleaseData.Assets\<close>.  The result of \<^verbatim>\<open>FixOwnership\<close> is discarded by the
  source and the helper changes no file content, so it leaves the state as it is.
\<close>

fun download_loop :: "env \<Rightarrow> path \<Rightarrow> asset list \<Rightarrow> state \<Rightarrow> error option \<times> state" where
  "download_loop e distDir [] s = (None, s)"
| "download_loop e distDir (ass # rest) s =
     (let lowerName = strings_ToLower (asset_Name ass) in
      if is_legal_notice lowerName then download_loop e distDir rest s
      else if is_wanted lowerName then
        (case http_Get e (DownloadURL ass) s of
           (Inl err, s1) \<Rightarrow> (Some err, s1)
         | (Inr res, s1) \<Rightarrow>
             if StatusCode res \<ge> 300 then (Some (errors_New (Status res)), s1)
             else
               (let filePath = path_Join e distDir (asset_Name ass) in
                case os_OpenFile e filePath s1 of
                  Inl err \<Rightarrow> (Some err, s1)
                | Inr s2 \<Rightarrow>
                    (case io_Copy e filePath res s2 of
                       ((n, Some err), s3) \<Rightarrow> (Some err, s3)
                     | ((n, None), s3) \<Rightarrow> download_loop e distDir rest s3)))
      else download_loop e distDir rest s)"

text \<open>
  One turn of the loop for an asset that passed both tests, on its own: request, status
  check, open, copy.  Lemma \<open>download_loop_step\<close> below shows that the loop is the iteration
  of this step.
\<close>

definition download_asset :: "env \<Rightarrow> path \<Rightarrow> asset \<Rightarrow> state \<Rightarrow> error option \<times> state" where
  "download_asset e distDir ass s =
     (case http_Get e (DownloadURL ass) s of
        (Inl err, s1) \<Rightarrow> (Some err, s1)
      | (Inr res, s1) \<Rightarrow>
          if StatusCode res \<ge> 300 then (Some (errors_New (Status res)), s1)
          else
            (let filePath = path_Join e distDir (asset_Name ass) in
             case os_OpenFile e filePath s1 of
               Inl err \<Rightarrow> (Some err, s1)
             | Inr s2 \<Rightarrow>
                 (case io_Copy e filePath res s2 of
                    ((n, Some err), s3) \<Rightarrow> (Some err, s3)
                  | ((n, None), s3) \<Rightarrow> (None, s3))))"

definition installLatestBuilds :: "env \<Rightarrow> state \<Rightarrow> error option \<times> state" where
  "installLatestBuilds e s =
     (if IsDevInstall s then (None, s)
      else
        (case MkdirAll_err e (path_Dir e (VelocityDirectory e)) of
           Some err \<Rightarrow> (Some err, s)
         | None \<Rightarrow>
             (let distDir = path_Dir e (VelocityDirectory e) in
              case download_loop e distDir (Assets (ReleaseData s)) s of
                (Some err, s1) \<Rightarrow> (Some err, s1)
              | (None, s1) \<Rightarrow> (None, s1\<lparr>InstalledHash := LatestHash s1\<rparr>))))"

subsection \<open>The single-archive variant\<close>

text \<open>
  A second source file defines \<^verbatim>\<open>installLatestBuilds\<close> differently: it downloads the one
  asset named \<^verbatim>\<open>desktop.asar\<close> to \<^verbatim>\<open>VelocityDirectory\<close> and compares the bytes read with the
  \<^verbatim>\<open>Content-Length\<close> header.  The rest of that file is the same as \<^verbatim>\<open>github_downloader.go\<close>.
  Here it is \<open>installLatestBuilds_asar\<close>.

  The search for the archive: the URL of the first asset named \<^verbatim>\<open>desktop.asar\<close>, or empty.
\<close>

fun find_desktop_asar :: "asset list \<Rightarrow> string" where
  "find_desktop_asar [] = []"
| "find_desktop_asar (ass # rest) =
     (if asset_Name ass = ''desktop.asar'' then DownloadURL ass else find_desktop_asar rest)"

definition installLatestBuilds_asar :: "env \<Rightarrow> state \<Rightarrow> error option \<times> state" where
  "installLatestBuilds_asar e s =
     (if IsDevInstall s then (None, s)
      else
        (let downloadUrl = find_desktop_asar (Assets (ReleaseData s)) in
         if downloadUrl = [] then (Some (errors_New ''did not find desktop.asar download link''), s)
         else
           (case http_Get e downloadUrl s of
              (Inl err, s1) \<Rightarrow> (Some err, s1)
            | (Inr res, s1) \<Rightarrow>
                if StatusCode res \<ge> 300 then (Some (errors_New (Status res)), s1)
                else
                  (case os_OpenFile e (VelocityDirectory e) s1 of
                     Inl err \<Rightarrow> (Some err, s1)
                   | Inr s2 \<Rightarrow>
                       (case io_Copy e (VelocityDirectory e) res s2 of
                          ((n, Some err), s3) \<Rightarrow> (Some err, s3)
                        | ((read, None), s3) \<Rightarrow>
                            (let contentLength = ContentLength res;
                                 expected = strconv_FormatInt read
                             in if expected \<noteq> contentLength
                                then (Some (errors_New
                                        (''Unexpected end of input. Content-Length was '' @
                                         contentLength @ '', but only read '' @ expected)), s3)
                                else (None, s3\<lparr>InstalledHash := LatestHash s3\<rparr>)))))))"

text \<open>
  The assets the loop of \<open>download_loop\<close> reaches the download for: those it neither skips as
  a legal notice nor passes over as unwanted.
\<close>

definition selected :: "asset \<Rightarrow> bool" where
  "selected ass =
     (\<not> is_legal_notice (strings_ToLower (asset_Name ass))
      \<and> is_wanted (strings_ToLower (asset_Name ass)))"

text \<open>
  Two states agree on the package-level variables (they may differ in the files and in the
  request log).
\<close>

definition same_vars :: "state \<Rightarrow> state \<Rightarrow> bool" where
  "same_vars s s' =
     (InstalledHash s' = InstalledHash s \<and> LatestHash s' = LatestHash s
      \<and> IsDevInstall s' = IsDevInstall s \<and> ReleaseData s' = ReleaseData s
      \<and> GithubError s' = GithubError s \<and> GithubDoneChan s' = GithubDoneChan s
      \<and> IsSelfOutdated s' = IsSelfOutdated s
      \<and> SelfUpdateCheckDoneChan s' = SelfUpdateCheckDoneChan s)"

section \<open>self_updater.go\<close>

text \<open>
  The body of the update check launched by \<^verbatim>\<open>init\<close>.
\<close>

definition selfUpdateCheck :: "env \<Rightarrow> state \<Rightarrow> state" where
  "selfUpdateCheck e s =
     (case GetGithubRelease e InstallerReleaseUrl s of
        (Inl err, s1) \<Rightarrow> s1\<lparr>SelfUpdateCheckDoneChan := SelfUpdateCheckDoneChan s1 @ [False]\<rparr>
      | (Inr res, s1) \<Rightarrow>
          (let s2 = s1\<lparr>IsSelfOutdated := (TagName res \<noteq> InstallerTag e)\<rparr>
           in s2\<lparr>SelfUpdateCheckDoneChan := SelfUpdateCheckDoneChan s2 @ [True]\<rparr>))"

definition GetInstallerDownloadLink :: "env \<Rightarrow> string" where
  "GetInstallerDownloadLink e =
     (let BaseUrl = ''https://github.com/Velocitcy/Installer/releases/latest/download/'' in
      if GOOS e = ''windows'' then
        BaseUrl @ (if UiTypeIsCli e then ''VelocityInstallerCli.exe'' else ''VelocityInstaller.exe'')
      else if GOOS e = ''darwin'' then BaseUrl @ ''VelocityInstaller.MacOS.zip''
      else if GOOS e = ''linux'' then BaseUrl @ ''VelocityInstallerCli-linux''
      else [])"

definition CanUpdateSelf :: "env \<Rightarrow> state \<Rightarrow> bool" where
  "CanUpdateSelf e s = (IsSelfOutdated s \<and> GOOS e \<noteq> ''darwin'')"

text \<open>
  \<^verbatim>\<open>os.Remove\<close> and \<^verbatim>\<open>os.Rename\<close>.  The first argument of \<open>os_Remove_with\<close> is the refusal of
  the operating system, if any (a locked running executable, a missing permission); a call
  that is not refused fails only when the file is not there.  A failed call changes nothing.
\<close>

definition os_Remove_with :: "error option \<Rightarrow> path \<Rightarrow> state \<Rightarrow> error option \<times> state" where
  "os_Remove_with refusal p s =
     (case refusal of
        Some err \<Rightarrow> (Some err, s)
      | None \<Rightarrow>
          if files s p = None then (Some ErrNotExist, s)
          else (None, s\<lparr>files := (files s)(p := None)\<rparr>))"

definition os_Remove :: "env \<Rightarrow> path \<Rightarrow> state \<Rightarrow> error option \<times> state" where
  "os_Remove e p s = os_Remove_with (Remove_err e p) p s"

definition os_Rename :: "env \<Rightarrow> path \<Rightarrow> path \<Rightarrow> state \<Rightarrow> error option \<times> state" where
  "os_Rename e src dst s =
     (case Rename_err e src dst of
        Some err \<Rightarrow> (Some err, s)
      | None \<Rightarrow>
          (case files s src of
             None \<Rightarrow> (Some ErrNotExist, s)
           | Some c \<Rightarrow> (None, s\<lparr>files := ((files s)(src := None))(dst \<mapsto> c)\<rparr>)))"

text \<open>
  \<^verbatim>\<open>os.CreateTemp(dir, pattern)\<close> for a pattern without \<^verbatim>\<open>*\<close>: the name is the pattern followed
  by a random number in decimal, joined to the directory; the file must not exist yet and is
  created empty.  (The library draws another number when the name is taken; here a taken
  name is a failure.)
\<close>

definition IsPathSeparator :: "env \<Rightarrow> char \<Rightarrow> bool" where
  "IsPathSeparator e c = (c = CHR ''/'' \<or> (GOOS e = ''windows'' \<and> c = CHR 0x5C))"

definition PathSeparator :: "env \<Rightarrow> char" where
  "PathSeparator e = (if GOOS e = ''windows'' then CHR 0x5C else CHR ''/'')"

definition joinPath :: "env \<Rightarrow> path \<Rightarrow> string \<Rightarrow> path" where
  "joinPath e dir name =
     (if dir \<noteq> [] \<and> IsPathSeparator e (last dir) then dir @ name
      else dir @ [PathSeparator e] @ name)"

definition temp_name :: "env \<Rightarrow> path \<Rightarrow> string \<Rightarrow> path" where
  "temp_name e dir pattern =
     (let d = (if dir = [] then os_TempDir e else dir)
      in joinPath e d (pattern @ uitoa (TempRandom e)))"

definition os_CreateTemp :: "env \<Rightarrow> path \<Rightarrow> string \<Rightarrow> state \<Rightarrow> error + (path \<times> state)" where
  "os_CreateTemp e dir pattern s =
     (let name = temp_name e dir pattern
      in case CreateTemp_err e of
           Some err \<Rightarrow> Inl err
         | None \<Rightarrow>
             if files s name \<noteq> None then Inl (SysError ''file exists'')
             else Inr (name, s\<lparr>files := (files s)(name \<mapsto> [])\<rparr>))"

text \<open>
  The deferred function of \<^verbatim>\<open>UpdateSelf\<close>: close the temporary file and remove it, both
  results discarded.
\<close>

definition deferred_cleanup :: "env \<Rightarrow> path \<Rightarrow> state \<Rightarrow> state" where
  "deferred_cleanup e tmp s = snd (os_Remove e tmp s)"

text \<open>
  \<^verbatim>\<open>UpdateSelf\<close> from \<^verbatim>\<open>tmp.Chmod\<close> to the end, that is, everything that runs once the
  temporary file exists and before the deferred function.
\<close>

definition replace_self :: "env \<Rightarrow> path \<Rightarrow> path \<Rightarrow> http_response \<Rightarrow> state \<Rightarrow> error option \<times> state" where
  "replace_self e ownExePath tmp res s =
     (case Chmod_err e of
        Some err \<Rightarrow> (Some (fmt_Errorf (''failed to chmod 755 '' @ tmp) err), s)
      | None \<Rightarrow>
          (case io_Copy e tmp res s of
             ((n, Some err), s1) \<Rightarrow> (Some err, s1)
           | ((n, None), s1) \<Rightarrow>
               (case Close_err e of
                  Some err \<Rightarrow> (Some err, s1)
                | None \<Rightarrow>
                    (let (rm, s2) = os_Remove e ownExePath s1;
                         (mv, s3) = (if rm \<noteq> None
                                     then os_Rename e ownExePath (ownExePath @ ''.old'') s2
                                     else (None, s2))
                     in case mv of
                          Some err \<Rightarrow>
                            (Some (fmt_Errorf ''failed to remove or rename own executable'' err), s3)
                        | None \<Rightarrow>
                            (case os_Rename e tmp ownExePath s3 of
                               (Some err, s4) \<Rightarrow>
                                 (Some (fmt_Errorf
                                    ''failed to replace self with updated executable. Please manually redownload the installer''
                                    err), s4)
                             | (None, s4) \<Rightarrow> (None, s4))))))"

definition UpdateSelf :: "env \<Rightarrow> state \<Rightarrow> error option \<times> state" where
  "UpdateSelf e s =
     (if \<not> CanUpdateSelf e s
      then (Some (errors_New ''cannot update self. Either no update available or macos''), s)
      else
        (let url = GetInstallerDownloadLink e in
         if url = [] then (Some (errors_New ''failed to get installer download link''), s)
         else
           (case os_Executable e of
              Inl err \<Rightarrow> (Some err, s)
            | Inr ownExePath \<Rightarrow>
                (let ownExeDir = path_Dir e ownExePath in
                 case http_Get e url s of
                   (Inl err, s1) \<Rightarrow> (Some err, s1)
                 | (Inr res, s1) \<Rightarrow>
                     (case os_CreateTemp e ownExeDir ''VelocityInstallerUpdate'' s1 of
                        Inl err \<Rightarrow> (Some (fmt_Errorf ''failed to create tempfile'' err), s1)
                      | Inr (tmp, s2) \<Rightarrow>
                          (let (r, s3) = replace_self e ownExePath tmp res s2
                           in (r, deferred_cleanup e tmp s3)))))))"

text \<open>
  \<^verbatim>\<open>errors.Is(err, target)\<close>: \<open>err\<close> or an error it wraps is the target.
\<close>

fun errors_Is :: "error \<Rightarrow> error \<Rightarrow> bool" where
  "errors_Is (fmt_Errorf msg inner) target =
     (fmt_Errorf msg inner = target \<or> errors_Is inner target)"
| "errors_Is err target = (err = target)"

text \<open>
  The results of \<^verbatim>\<open>os.Remove\<close> on which the retry loop stops:
  \<^verbatim>\<open>err == nil || errors.Is(err, os.ErrNotExist)\<close>.
\<close>

definition is_terminal :: "error option \<Rightarrow> bool" where
  "is_terminal x = (case x of None \<Rightarrow> True | Some err \<Rightarrow> errors_Is err ErrNotExist)"

text \<open>
  The retry loop of \<^verbatim>\<open>DeleteOldExecutable\<close>, from attempt number \<open>attempts\<close> on.  Beside the
  state it returns the result of each \<^verbatim>\<open>os.Remove\<close> it made, in order.  The one-second sleep
  after a failed attempt has no effect on the state.
\<close>

function delete_loop :: "env \<Rightarrow> path \<Rightarrow> nat \<Rightarrow> state \<Rightarrow> error option list \<times> state" where
  "delete_loop e old attempts s =
     (if attempts < 10 then
        (case os_Remove_with (Remove_old_err e attempts) old s of
           (None, s1) \<Rightarrow> ([None], s1)
         | (Some err, s1) \<Rightarrow>
             if errors_Is err ErrNotExist then ([Some err], s1)
             else (let (tr, s2) = delete_loop e old (attempts + 1) s1 in (Some err # tr, s2)))
      else ([], s))"
  by pat_completeness auto
termination
  by (relation "measure (\<lambda>(e, old, attempts, s). 10 - attempts)") auto

declare delete_loop.simps [simp del]

definition DeleteOldExecutable_trace :: "env \<Rightarrow> state \<Rightarrow> error option list \<times> state" where
  "DeleteOldExecutable_trace e s =
     (case os_Executable e of
        Inl err \<Rightarrow> ([], s)
      | Inr ownExePath \<Rightarrow> delete_loop e (ownExePath @ ''.old'') 0 s)"

text \<open>\<^verbatim>\<open>DeleteOldExecutable\<close> itself returns nothing: only the state is left.\<close>

definition DeleteOldExecutable :: "env \<Rightarrow> state \<Rightarrow> state" where
  "DeleteOldExecutable e s = snd (DeleteOldExecutable_trace e s)"

text \<open>
  \<^verbatim>\<open>init\<close>: the tasks it launches, in the order of the \<^verbatim>\<open>go\<close> statements.  They touch
  different parts of the state (the files; the flag, the channel and the request log).
\<close>

datatype task = DeleteOldExecutableTask | SelfUpdateCheckTask

definition init_tasks :: "env \<Rightarrow> task list" where
  "init_tasks e =
     (if InstallerTag e = VersionUnknown e then []
      else [DeleteOldExecutableTask, SelfUpdateCheckTask])"

fun run_task :: "env \<Rightarrow> task \<Rightarrow> state \<Rightarrow> state" where
  "run_task e DeleteOldExecutableTask s = DeleteOldExecutable e s"
| "run_task e SelfUpdateCheckTask s = selfUpdateCheck e s"

definition init :: "env \<Rightarrow> state \<Rightarrow> state" where
  "init e s = fold (run_task e) (init_tasks e) s"

section \<open>A concrete run\<close>

text \<open>
  A release, a response and surroundings on which the functions above are evaluated: a
  Linux command-line build tagged \<^verbatim>\<open>v1.1.0\<close>, a network that answers every request with
  status 200 and a body of 4 bytes whose length it declares, and an operating system that
  refuses nothing.
\<close>

definition example_assets :: "asset list" where
  "example_assets =
     [\<lparr>asset_Name = ''velocityDesktopMain.js'', DownloadURL = ''https://dl.test/main''\<rparr>,
      \<lparr>asset_Name = ''patcher.js'', DownloadURL = ''https://dl.test/patcher''\<rparr>,
      \<lparr>asset_Name = ''patcher.js.LEGAL.txt'', DownloadURL = ''https://dl.test/legal''\<rparr>,
      \<lparr>asset_Name = ''desktop.asar'', DownloadURL = ''https://dl.test/asar''\<rparr>]"

definition patcher_asset :: asset where
  "patcher_asset = \<lparr>asset_Name = ''patcher.js'', DownloadURL = ''https://dl.test/patcher''\<rparr>"

definition example_release :: GithubRelease where
  "example_release =
     \<lparr>Name = ''Velocity Build abc123'', TagName = ''v1.2.0'', Assets = example_assets\<rparr>"

definition example_response :: http_response where
  "example_response =
     \<lparr>StatusCode = 200, Status = ''200 OK'', ContentLength = ''4'', Body = ''abcd'',
      BodyErr = None\<rparr>"

definition example_env :: env where
  "example_env =
     \<lparr>GOOS = ''linux'', InstallerTag = ''v1.1.0'', VersionUnknown = ''unknown'',
      UiTypeIsCli = True, VelocityDirectory = ''/cfg/Velocity/dist'', DevInstallVar = [],
      http_NewRequest = (\<lambda>url. None), http_Do = (\<lambda>url. Inr example_response),
      json_Decode = (\<lambda>body. Inr example_release),
      path_Dir = (\<lambda>p. if p = ''/opt/vi'' then ''/opt'' else ''/cfg/Velocity''), path_Join = (\<lambda>d n. d @ ''/'' @ n),
      os_Stat = (\<lambda>p. Inl ErrNotExist), os_Executable = Inr ''/opt/vi'',
      MkdirAll_err = (\<lambda>p. None), OpenFile_err = (\<lambda>p. None), Write_fault = (\<lambda>p. None),
      os_TempDir = ''/tmp'', TempRandom = 7, CreateTemp_err = None, Chmod_err = None,
      Close_err = None, Remove_err = (\<lambda>p. None), Rename_err = (\<lambda>src dst. None),
      Remove_old_err = (\<lambda>k. None)\<rparr>"

text \<open>The running installer on disk, and a state in which an update is known to exist.\<close>

definition example_files :: fs where
  "example_files = Map.empty(''/opt/vi'' \<mapsto> ''old-binary'')"

definition outdated_state :: state where
  "outdated_state = (initial_state example_files)\<lparr>IsSelfOutdated := True\<rparr>"

text \<open>
  Three operating systems that get in the way of the self-update: one that lets the running
  executable be removed but refuses to move anything onto its path; one that, besides,
  keeps the running executable from being removed (it can still be renamed); and one that
  allows neither removing nor renaming.
\<close>

definition rename_denied_env :: env where
  "rename_denied_env =
     example_env\<lparr>Rename_err :=
       (\<lambda>src dst. if dst = ''/opt/vi'' then Some (SysError ''permission denied'') else None)\<rparr>"

definition locked_exe_env :: env where
  "locked_exe_env =
     rename_denied_env\<lparr>Remove_err :=
       (\<lambda>p. if p = ''/opt/vi'' then Some (SysError ''text file busy'') else None)\<rparr>"

definition stuck_env :: env where
  "stuck_env =
     example_env\<lparr>Remove_err := (\<lambda>p. Some (SysError ''text file busy'')),
                 Rename_err := (\<lambda>src dst. Some (SysError ''permission denied''))\<rparr>"

text \<open>The state once the fetch task has stored the example release.\<close>

definition fetched_state :: state where
  "fetched_state =
     (initial_state example_files)
       \<lparr>ReleaseData := example_release, GithubDoneChan := [True], LatestHash := ''abc123'',
        requests := [ReleaseUrl]\<rparr>"

text \<open>
  A disk that cannot be written to; a network that is down; and a network whose connection
  closes after 4 of the 10 bytes it declared, so that the body stream ends with
  \<^verbatim>\<open>io.ErrUnexpectedEOF\<close>.
\<close>

definition readonly_env :: env where
  "readonly_env = example_env\<lparr>OpenFile_err := (\<lambda>p. Some (SysError ''read-only file system''))\<rparr>"



definition truncated_response :: http_response where
  "truncated_response =
     \<lparr>StatusCode = 200, Status = ''200 OK'', ContentLength = ''10'', Body = ''abcd'',
      BodyErr = Some io_ErrUnexpectedEOF\<rparr>"

definition truncated_env :: env where
  "truncated_env = example_env\<lparr>http_Do := (\<lambda>url. Inr truncated_response)\<rparr>"

text \<open>
  An operating system that refuses the first \<open>n\<close> removals of the \<^verbatim>\<open>.old\<close> file, and a disk
  on which a previous update left that file behind.
\<close>

definition busy_env :: "nat \<Rightarrow> env" where
  "busy_env n =
     example_env\<lparr>Remove_old_err := (\<lambda>k. if k < n then Some (SysError ''busy'') else None)\<rparr>"

definition leftover_files :: fs where
  "leftover_files = example_files(''/opt/vi.old'' \<mapsto> ''older-binary'')"

section \<open>The latest hash is what follows the last space\<close>

lemma prefix_single_drop: "prefix [c] (drop j s) = (j < length s \<and> s ! j = c)"
proof (cases "j < length s")
  case True
  then have "drop j s = s ! j # drop (Suc j) s" by (simp add: Cons_nth_drop_Suc)
  then show ?thesis using True by auto
next
  case False
  then show ?thesis by simp
qed

lemma last_index_from_cases:
  "last_index_from n s [c] = - 1 \<and> (\<forall>j\<le>n. j < length s \<longrightarrow> s ! j \<noteq> c)
   \<or> (\<exists>k\<le>n. last_index_from n s [c] = int k \<and> k < length s \<and> s ! k = c
          \<and> (\<forall>j. k < j \<and> j \<le> n \<and> j < length s \<longrightarrow> s ! j \<noteq> c))"
proof (induction n)
  case 0
  have "prefix [c] s = (0 < length s \<and> s ! 0 = c)" using prefix_single_drop [of c 0 s] by simp
  then show ?case by auto
next
  case (Suc n)
  show ?case
  proof (cases "prefix [c] (drop (Suc n) s)")
    case True
    then show ?thesis using prefix_single_drop [of c "Suc n" s] by auto
  next
    case False
    then have ne: "\<not> (Suc n < length s \<and> s ! Suc n = c)" using prefix_single_drop [of c "Suc n" s] by simp
    have eq: "last_index_from (Suc n) s [c] = last_index_from n s [c]" using False by simp
    from Suc show ?thesis
    proof
      assume a: "last_index_from n s [c] = - 1 \<and> (\<forall>j\<le>n. j < length s \<longrightarrow> s ! j \<noteq> c)"
      then have "\<forall>j\<le>Suc n. j < length s \<longrightarrow> s ! j \<noteq> c" using ne by (auto simp: le_Suc_eq)
      then show ?thesis using a eq by simp
    next
      assume "\<exists>k\<le>n. last_index_from n s [c] = int k \<and> k < length s \<and> s ! k = c
          \<and> (\<forall>j. k < j \<and> j \<le> n \<and> j < length s \<longrightarrow> s ! j \<noteq> c)"
      then obtain k where k: "k \<le> n" "last_index_from n s [c] = int k" "k < length s" "s ! k = c"
        "\<forall>j. k < j \<and> j \<le> n \<and> j < length s \<longrightarrow> s ! j \<noteq> c" by blast
      have "\<forall>j. k < j \<and> j \<le> Suc n \<and> j < length s \<longrightarrow> s ! j \<noteq> c" using k(5) ne by (auto simp: le_Suc_eq)
      then show ?thesis using k eq by auto
    qed
  qed
qed

lemma LastIndex_range: "- 1 \<le> strings_LastIndex s [c] \<and> strings_LastIndex s [c] < int (length s)"
  using last_index_from_cases [of "length s" s c] unfolding strings_LastIndex_def by auto

lemma LastIndex_split:
  assumes "c \<in> set s"
  shows "\<exists>pre. s = pre @ [c] @ drop (nat (strings_LastIndex s [c] + 1)) s
           \<and> c \<notin> set (drop (nat (strings_LastIndex s [c] + 1)) s)"
proof -
  from assms obtain j where j: "j < length s" "s ! j = c" by (auto simp: in_set_conv_nth)
  have "\<not> (\<forall>j\<le>length s. j < length s \<longrightarrow> s ! j \<noteq> c)"
    using j less_imp_le_nat by blast
  with last_index_from_cases [of "length s" s c]
  have "\<exists>k\<le>length s. last_index_from (length s) s [c] = int k \<and> k < length s \<and> s ! k = c
          \<and> (\<forall>j. k < j \<and> j \<le> length s \<and> j < length s \<longrightarrow> s ! j \<noteq> c)" by blast
  then obtain k where k: "strings_LastIndex s [c] = int k" "k < length s" "s ! k = c"
      "\<forall>j. k < j \<and> j < length s \<longrightarrow> s ! j \<noteq> c"
    unfolding strings_LastIndex_def by auto
  have i: "nat (strings_LastIndex s [c] + 1) = Suc k" using k(1) by simp
  have "s = take k s @ [c] @ drop (Suc k) s" using k(2,3) id_take_nth_drop [of k s] by simp
  moreover have "c \<notin> set (drop (Suc k) s)"
  proof
    assume "c \<in> set (drop (Suc k) s)"
    then obtain m where m: "m < length (drop (Suc k) s)" "drop (Suc k) s ! m = c"
      by (auto simp: in_set_conv_nth)
    then have "Suc k + m < length s" "s ! (Suc k + m) = c" by auto
    then show False using k(4) by auto
  qed
  ultimately show ?thesis unfolding i by blast
qed

lemma githubFetchTask_success:
  assumes "GetGithubRelease e ReleaseUrl s = (Inr data, s1)"
  shows "githubFetchTask e s =
    send_done (s1\<lparr>ReleaseData := data, LatestHash := drop (nat (strings_LastIndex (Name data) '' '' + 1)) (Name data)\<rparr>)"
  using assms by (simp add: githubFetchTask_def Let_def)


lemma GetGithubRelease_state:
  "snd (GetGithubRelease e url s) = s \<or> snd (GetGithubRelease e url s) = s\<lparr>requests := requests s @ [url]\<rparr>"
  by (simp add: GetGithubRelease_def Let_def split: option.splits sum.splits)

lemma GetGithubRelease_keeps:
  assumes "GetGithubRelease e url s = (r, s1)"
  shows "LatestHash s1 = LatestHash s \<and> GithubError s1 = GithubError s
       \<and> GithubDoneChan s1 = GithubDoneChan s \<and> InstalledHash s1 = InstalledHash s
       \<and> IsSelfOutdated s1 = IsSelfOutdated s \<and> SelfUpdateCheckDoneChan s1 = SelfUpdateCheckDoneChan s
       \<and> files s1 = files s \<and> IsDevInstall s1 = IsDevInstall s"
  using GetGithubRelease_state [of e url s] assms by auto

text \<open>
  C5.  When the fetch succeeds with a release whose display name contains a space, the
  \<open>LatestHash\<close> the task stores is the part of the name strictly after its last space: the
  name is some prefix, a space, and \<open>LatestHash\<close>, and \<open>LatestHash\<close> holds no space.
\<close>

theorem latest_hash_after_last_space:
  assumes "GetGithubRelease e ReleaseUrl s = (Inr data, s1)"
      and "CHR '' '' \<in> set (Name data)"
  shows "\<exists>pre. Name data = pre @ '' '' @ LatestHash (githubFetchTask e s)
           \<and> CHR '' '' \<notin> set (LatestHash (githubFetchTask e s))"
proof -
  have "LatestHash (githubFetchTask e s)
          = drop (nat (strings_LastIndex (Name data) '' '' + 1)) (Name data)"
    by (simp add: githubFetchTask_success [OF assms(1)] send_done_def)
  then show ?thesis using LastIndex_split [OF assms(2)] by simp
qed

lemma example_fetch:
  "GetGithubRelease example_env ReleaseUrl (initial_state example_files)
     = (Inr example_release, (initial_state example_files)\<lparr>requests := [ReleaseUrl]\<rparr>)"
  by (simp add: GetGithubRelease_def example_env_def example_response_def initial_state_def)

theorem latest_hash_after_last_space_witness:
  "GetGithubRelease example_env ReleaseUrl (initial_state example_files)
     = (Inr example_release, (initial_state example_files)\<lparr>requests := [ReleaseUrl]\<rparr>)
   \<and> CHR '' '' \<in> set (Name example_release)
   \<and> Name example_release = ''Velocity Build abc123''
   \<and> LatestHash (githubFetchTask example_env (initial_state example_files)) = ''abc123''"
proof -
  have sp: "CHR '' '' \<in> set (Name example_release)" by (simp add: example_release_def)
  from latest_hash_after_last_space [OF example_fetch sp]
  obtain pre where pre: "Name example_release = pre @ '' '' @ LatestHash (githubFetchTask example_env (initial_state example_files))"
     and no: "CHR '' '' \<notin> set (LatestHash (githubFetchTask example_env (initial_state example_files)))" by blast
  have "LatestHash (githubFetchTask example_env (initial_state example_files)) = ''abc123''"
    by (simp add: githubFetchTask_success [OF example_fetch] send_done_def example_release_def strings_LastIndex_def)
  then show ?thesis using example_fetch sp by (simp add: example_release_def)
qed

section \<open>The self-update check\<close>

lemma GetGithubRelease_result_indep:
  "fst (GetGithubRelease e url s) = fst (GetGithubRelease e url s')"
  by (simp add: GetGithubRelease_def Let_def split: option.splits sum.splits)

lemma os_Remove_with_only_files:
  "os_Remove_with r p s = (x, s1) \<Longrightarrow> s1 = s\<lparr>files := files s1\<rparr>"
  by (auto simp: os_Remove_with_def split: option.splits if_splits)

lemma delete_loop_only_files:
  "delete_loop e old a s = (tr, s') \<Longrightarrow> s' = s\<lparr>files := files s'\<rparr>"
proof (induction e old a s arbitrary: tr s' rule: delete_loop.induct)
  case (1 e old attempts s)
  show ?case
  proof (cases "attempts < 10")
    case False
    then show ?thesis using "1.prems" by (simp add: delete_loop.simps)
  next
    case True
    obtain x s1 where r: "os_Remove_with (Remove_old_err e attempts) old s = (x, s1)"
      by (cases "os_Remove_with (Remove_old_err e attempts) old s")
    have s1: "s1 = s\<lparr>files := files s1\<rparr>" using os_Remove_with_only_files [OF r] .
    show ?thesis
    proof (cases x)
      case None
      then show ?thesis using "1.prems" True r s1 by (simp add: delete_loop.simps)
    next
      case (Some err)
      show ?thesis
      proof (cases "errors_Is err ErrNotExist")
        case True
        then show ?thesis using "1.prems" \<open>attempts < 10\<close> r s1 Some by (simp add: delete_loop.simps)
      next
        case False
        obtain tr2 s2 where rec: "delete_loop e old (attempts + 1) s1 = (tr2, s2)"
          by (cases "delete_loop e old (attempts + 1) s1")
        have "s2 = s1\<lparr>files := files s2\<rparr>"
          using "1.IH" [OF \<open>attempts < 10\<close> r [symmetric] Some False rec] .
        moreover have "s' = s2" using "1.prems" \<open>attempts < 10\<close> r Some False rec
          by (simp add: delete_loop.simps)
        ultimately show ?thesis using s1 by (metis state.surjective state.update_convs(9))
      qed
    qed
  qed
qed

lemma DeleteOldExecutable_only_files:
  "DeleteOldExecutable e s = s\<lparr>files := files (DeleteOldExecutable e s)\<rparr>"
proof (cases "os_Executable e")
  case (Inl err)
  then show ?thesis by (simp add: DeleteOldExecutable_def DeleteOldExecutable_trace_def)
next
  case (Inr p)
  obtain tr s' where d: "delete_loop e (p @ ''.old'') 0 s = (tr, s')"
    by (cases "delete_loop e (p @ ''.old'') 0 s")
  show ?thesis using Inr d delete_loop_only_files [OF d]
    by (simp add: DeleteOldExecutable_def DeleteOldExecutable_trace_def)
qed

lemma selfUpdateCheck_result:
  assumes "GetGithubRelease e InstallerReleaseUrl s = (r, s1)"
  shows "IsSelfOutdated (selfUpdateCheck e s)
           = (case r of Inl err \<Rightarrow> IsSelfOutdated s | Inr res \<Rightarrow> TagName res \<noteq> InstallerTag e)
       \<and> SelfUpdateCheckDoneChan (selfUpdateCheck e s)
           = SelfUpdateCheckDoneChan s @ [case r of Inl err \<Rightarrow> False | Inr res \<Rightarrow> True]"
  using assms GetGithubRelease_keeps [OF assms]
  by (cases r) (simp_all add: selfUpdateCheck_def Let_def)

lemma init_release_build:
  assumes "InstallerTag e \<noteq> VersionUnknown e"
  shows "init e s = selfUpdateCheck e (DeleteOldExecutable e s)"
  using assms by (simp add: init_def init_tasks_def)

lemma init_result:
  assumes tag: "InstallerTag e \<noteq> VersionUnknown e"
      and r: "fst (GetGithubRelease e InstallerReleaseUrl s) = r"
  shows "IsSelfOutdated (init e s)
           = (case r of Inl err \<Rightarrow> IsSelfOutdated s | Inr res \<Rightarrow> TagName res \<noteq> InstallerTag e)
       \<and> SelfUpdateCheckDoneChan (init e s)
           = SelfUpdateCheckDoneChan s @ [case r of Inl err \<Rightarrow> False | Inr res \<Rightarrow> True]"
proof -
  let ?s0 = "DeleteOldExecutable e s"
  have "fst (GetGithubRelease e InstallerReleaseUrl ?s0) = r"
    using r GetGithubRelease_result_indep [of e InstallerReleaseUrl ?s0 s] by simp
  then obtain s1 where g: "GetGithubRelease e InstallerReleaseUrl ?s0 = (r, s1)"
    by (cases "GetGithubRelease e InstallerReleaseUrl ?s0") simp
  have k: "IsSelfOutdated ?s0 = IsSelfOutdated s"
      "SelfUpdateCheckDoneChan ?s0 = SelfUpdateCheckDoneChan s"
    using DeleteOldExecutable_only_files [of e s]
    by (metis state.select_convs(7) state.surjective state.update_convs(9),
        metis state.select_convs(8) state.surjective state.update_convs(9))
  show ?thesis
    using selfUpdateCheck_result [OF g] k
    by (cases r) (simp_all add: init_release_build [OF tag])
qed

text \<open>
  C7.  With the unknown tag \<^verbatim>\<open>init\<close> launches nothing and leaves the state, hence
  \<open>IsSelfOutdated\<close>, as it is.  With a real tag the check is launched; when its fetch succeeds
  \<open>IsSelfOutdated\<close> becomes true exactly when the fetched tag differs from the embedded one,
  and \<open>True\<close> is sent; when the fetch fails \<open>IsSelfOutdated\<close> is unchanged and \<open>False\<close> is sent.
\<close>

theorem self_update_check_only_for_release_builds:
  "(InstallerTag e = VersionUnknown e \<longrightarrow> init_tasks e = [] \<and> init e s = s)
   \<and> (InstallerTag e \<noteq> VersionUnknown e \<longrightarrow> SelfUpdateCheckTask \<in> set (init_tasks e))
   \<and> (InstallerTag e \<noteq> VersionUnknown e
        \<and> fst (GetGithubRelease e InstallerReleaseUrl s) = Inr res \<longrightarrow>
          IsSelfOutdated (init e s) = (TagName res \<noteq> InstallerTag e)
          \<and> SelfUpdateCheckDoneChan (init e s) = SelfUpdateCheckDoneChan s @ [True])
   \<and> (InstallerTag e \<noteq> VersionUnknown e
        \<and> fst (GetGithubRelease e InstallerReleaseUrl s) = Inl err \<longrightarrow>
          IsSelfOutdated (init e s) = IsSelfOutdated s
          \<and> SelfUpdateCheckDoneChan (init e s) = SelfUpdateCheckDoneChan s @ [False])"
proof (intro conjI impI)
  assume "InstallerTag e = VersionUnknown e"
  then show "init_tasks e = []" "init e s = s" by (simp_all add: init_def init_tasks_def)
next
  assume "InstallerTag e \<noteq> VersionUnknown e"
  then show "SelfUpdateCheckTask \<in> set (init_tasks e)" by (simp add: init_tasks_def)
next
  assume a: "InstallerTag e \<noteq> VersionUnknown e
        \<and> fst (GetGithubRelease e InstallerReleaseUrl s) = Inr res"
  then show "IsSelfOutdated (init e s) = (TagName res \<noteq> InstallerTag e)"
      "SelfUpdateCheckDoneChan (init e s) = SelfUpdateCheckDoneChan s @ [True]"
    using init_result [of e s "Inr res"] by simp_all
next
  assume a: "InstallerTag e \<noteq> VersionUnknown e
        \<and> fst (GetGithubRelease e InstallerReleaseUrl s) = Inl err"
  then show "IsSelfOutdated (init e s) = IsSelfOutdated s"
      "SelfUpdateCheckDoneChan (init e s) = SelfUpdateCheckDoneChan s @ [False]"
    using init_result [of e s "Inl err"] by simp_all
qed

lemma example_installer_fetch:
  "fst (GetGithubRelease example_env InstallerReleaseUrl (initial_state example_files))
     = Inr example_release"
  by (simp add: GetGithubRelease_def example_env_def example_response_def)

lemma failing_installer_fetch:
  "fst (GetGithubRelease (example_env\<lparr>http_Do := (\<lambda>url. Inl (SysError ''no route to host''))\<rparr>)
      InstallerReleaseUrl (initial_state example_files)) = Inl (SysError ''no route to host'')"
  by (simp add: GetGithubRelease_def example_env_def)

theorem self_update_check_only_for_release_builds_witness:
  "InstallerTag (example_env\<lparr>InstallerTag := ''unknown''\<rparr>)
      = VersionUnknown (example_env\<lparr>InstallerTag := ''unknown''\<rparr>)
   \<and> IsSelfOutdated (init (example_env\<lparr>InstallerTag := ''unknown''\<rparr>) (initial_state example_files)) = False
   \<and> requests (init (example_env\<lparr>InstallerTag := ''unknown''\<rparr>) (initial_state example_files)) = []
   \<and> InstallerTag example_env \<noteq> VersionUnknown example_env
   \<and> fst (GetGithubRelease example_env InstallerReleaseUrl (initial_state example_files))
        = Inr example_release
   \<and> IsSelfOutdated (init example_env (initial_state example_files)) = True
   \<and> SelfUpdateCheckDoneChan (init example_env (initial_state example_files)) = [True]
   \<and> fst (GetGithubRelease (example_env\<lparr>http_Do := (\<lambda>url. Inl (SysError ''no route to host''))\<rparr>)
        InstallerReleaseUrl (initial_state example_files)) = Inl (SysError ''no route to host'')
   \<and> IsSelfOutdated (init (example_env\<lparr>http_Do := (\<lambda>url. Inl (SysError ''no route to host''))\<rparr>)
        (initial_state example_files)) = False
   \<and> SelfUpdateCheckDoneChan (init (example_env\<lparr>http_Do := (\<lambda>url. Inl (SysError ''no route to host''))\<rparr>)
        (initial_state example_files)) = [False]"
proof -
  have u: "InstallerTag (example_env\<lparr>InstallerTag := ''unknown''\<rparr>)
      = VersionUnknown (example_env\<lparr>InstallerTag := ''unknown''\<rparr>)" by (simp add: example_env_def)
  have t: "InstallerTag example_env \<noteq> VersionUnknown example_env" by (simp add: example_env_def)
  have t': "InstallerTag (example_env\<lparr>http_Do := (\<lambda>url. Inl (SysError ''no route to host''))\<rparr>)
     \<noteq> VersionUnknown (example_env\<lparr>http_Do := (\<lambda>url. Inl (SysError ''no route to host''))\<rparr>)"
    by (simp add: example_env_def)
  have i: "IsSelfOutdated (initial_state example_files) = False"
      "SelfUpdateCheckDoneChan (initial_state example_files) = []"
      "requests (initial_state example_files) = []"
    by (simp_all add: initial_state_def)
  have tg: "TagName example_release \<noteq> InstallerTag example_env"
    by (simp add: example_release_def example_env_def)
  from self_update_check_only_for_release_builds
         [of "example_env\<lparr>InstallerTag := ''unknown''\<rparr>" "initial_state example_files"] u
  have a: "init (example_env\<lparr>InstallerTag := ''unknown''\<rparr>) (initial_state example_files)
             = initial_state example_files" by blast
  from self_update_check_only_for_release_builds
         [of example_env "initial_state example_files" example_release] t example_installer_fetch
  have b: "IsSelfOutdated (init example_env (initial_state example_files))
             = (TagName example_release \<noteq> InstallerTag example_env)
         \<and> SelfUpdateCheckDoneChan (init example_env (initial_state example_files))
             = SelfUpdateCheckDoneChan (initial_state example_files) @ [True]" by blast
  from self_update_check_only_for_release_builds
         [of "example_env\<lparr>http_Do := (\<lambda>url. Inl (SysError ''no route to host''))\<rparr>"
             "initial_state example_files" _ "SysError ''no route to host''"] t' failing_installer_fetch
  have c: "IsSelfOutdated (init (example_env\<lparr>http_Do := (\<lambda>url. Inl (SysError ''no route to host''))\<rparr>)
              (initial_state example_files)) = IsSelfOutdated (initial_state example_files)
         \<and> SelfUpdateCheckDoneChan (init (example_env\<lparr>http_Do := (\<lambda>url. Inl (SysError ''no route to host''))\<rparr>)
              (initial_state example_files)) = SelfUpdateCheckDoneChan (initial_state example_files) @ [False]"
    by blast
  show ?thesis using u t a b c i tg example_installer_fetch failing_installer_fetch by simp
qed

section \<open>When the update may be applied\<close>

text \<open>
  C8.  \<open>CanUpdateSelf\<close> holds exactly when \<open>IsSelfOutdated\<close> is set and the platform is not
  \<^verbatim>\<open>darwin\<close>; on \<^verbatim>\<open>darwin\<close> it is false whatever \<open>IsSelfOutdated\<close> is; and \<open>UpdateSelf\<close> called
  when it is false returns its error with the state untouched: no request was sent and no
  file changed.
\<close>

theorem UpdateSelf_refused_unless_CanUpdateSelf:
  "CanUpdateSelf e s = (IsSelfOutdated s \<and> GOOS e \<noteq> ''darwin'')
   \<and> (GOOS e = ''darwin'' \<longrightarrow> \<not> CanUpdateSelf e s)
   \<and> (\<not> CanUpdateSelf e s \<longrightarrow>
         UpdateSelf e s
           = (Some (errors_New ''cannot update self. Either no update available or macos''), s))"
  by (simp add: CanUpdateSelf_def UpdateSelf_def)

theorem UpdateSelf_refused_unless_CanUpdateSelf_witness:
  "GOOS (example_env\<lparr>GOOS := ''darwin''\<rparr>) = ''darwin''
   \<and> IsSelfOutdated outdated_state
   \<and> \<not> CanUpdateSelf (example_env\<lparr>GOOS := ''darwin''\<rparr>) outdated_state
   \<and> UpdateSelf (example_env\<lparr>GOOS := ''darwin''\<rparr>) outdated_state
        = (Some (errors_New ''cannot update self. Either no update available or macos''),
           outdated_state)
   \<and> requests (snd (UpdateSelf (example_env\<lparr>GOOS := ''darwin''\<rparr>) outdated_state)) = []
   \<and> files (snd (UpdateSelf (example_env\<lparr>GOOS := ''darwin''\<rparr>) outdated_state)) = example_files"
proof -
  have d: "GOOS (example_env\<lparr>GOOS := ''darwin''\<rparr>) = ''darwin''" by simp
  have o: "IsSelfOutdated outdated_state" by (simp add: outdated_state_def)
  from UpdateSelf_refused_unless_CanUpdateSelf
         [of "example_env\<lparr>GOOS := ''darwin''\<rparr>" outdated_state] d
  have n: "\<not> CanUpdateSelf (example_env\<lparr>GOOS := ''darwin''\<rparr>) outdated_state"
    and u: "UpdateSelf (example_env\<lparr>GOOS := ''darwin''\<rparr>) outdated_state
        = (Some (errors_New ''cannot update self. Either no update available or macos''),
           outdated_state)" by blast+
  show ?thesis using d o n u by (simp add: outdated_state_def initial_state_def)
qed

section \<open>Cleaning up the previous executable\<close>

text \<open>An attempt ends the loop when it succeeded or failed because the file is not there.\<close>

lemma delete_loop_unfold_stop:
  assumes "attempts < 10"
      and "os_Remove_with (Remove_old_err e attempts) old s = (x, s1)"
      and "x = None \<or> (\<exists>err. x = Some err \<and> errors_Is err ErrNotExist)"
  shows "delete_loop e old attempts s = ([x], s1)"
  using assms by (auto simp: delete_loop.simps)

lemma delete_loop_unfold_retry:
  assumes "attempts < 10"
      and "os_Remove_with (Remove_old_err e attempts) old s = (Some err, s1)"
      and "\<not> errors_Is err ErrNotExist"
  shows "delete_loop e old attempts s
           = (Some err # fst (delete_loop e old (Suc attempts) s1),
              snd (delete_loop e old (Suc attempts) s1))"
  using assms by (simp add: delete_loop.simps split_beta)

lemma delete_loop_unfold_done:
  assumes "\<not> attempts < 10"
  shows "delete_loop e old attempts s = ([], s)"
  using assms by (simp add: delete_loop.simps)

lemma delete_loop_trace:
  "length (fst (delete_loop e old a s)) \<le> 10 - a
   \<and> (\<forall>i. Suc i < length (fst (delete_loop e old a s))
          \<longrightarrow> \<not> is_terminal (fst (delete_loop e old a s) ! i))
   \<and> (fst (delete_loop e old a s) \<noteq> [] \<and> a + length (fst (delete_loop e old a s)) < 10
          \<longrightarrow> is_terminal (last (fst (delete_loop e old a s))))
   \<and> (a < 10 \<longrightarrow> fst (delete_loop e old a s) \<noteq> [])"
proof (induction e old a s rule: delete_loop.induct)
  case (1 e old attempts s)
  show ?case
  proof (cases "attempts < 10")
    case False
    then show ?thesis by (simp add: delete_loop_unfold_done)
  next
    case True
    obtain x s1 where r: "os_Remove_with (Remove_old_err e attempts) old s = (x, s1)"
      by (cases "os_Remove_with (Remove_old_err e attempts) old s")
    show ?thesis
    proof (cases "is_terminal x")
      case True
      then have "x = None \<or> (\<exists>err. x = Some err \<and> errors_Is err ErrNotExist)"
        by (auto simp: is_terminal_def split: option.splits)
      from delete_loop_unfold_stop [OF \<open>attempts < 10\<close> r this] True \<open>attempts < 10\<close>
      show ?thesis by simp
    next
      case False
      then obtain err where x: "x = Some err" and ne: "\<not> errors_Is err ErrNotExist"
        by (auto simp: is_terminal_def split: option.splits)
      let ?tr = "fst (delete_loop e old (Suc attempts) s1)"
      have u: "fst (delete_loop e old attempts s) = Some err # ?tr"
        using delete_loop_unfold_retry [OF \<open>attempts < 10\<close> r [unfolded x] ne] by simp
      have ih: "length ?tr \<le> 10 - Suc attempts
         \<and> (\<forall>i. Suc i < length ?tr \<longrightarrow> \<not> is_terminal (?tr ! i))
         \<and> (?tr \<noteq> [] \<and> Suc attempts + length ?tr < 10 \<longrightarrow> is_terminal (last ?tr))
         \<and> (Suc attempts < 10 \<longrightarrow> ?tr \<noteq> [])"
        using "1.IH" [OF \<open>attempts < 10\<close> r [symmetric] x ne] by simp
      have a: "length (Some err # ?tr) \<le> 10 - attempts" using ih \<open>attempts < 10\<close> by (simp, arith)
      have b: "\<forall>i. Suc i < length (Some err # ?tr) \<longrightarrow> \<not> is_terminal ((Some err # ?tr) ! i)"
      proof (intro allI impI)
        fix i assume i: "Suc i < length (Some err # ?tr)"
        show "\<not> is_terminal ((Some err # ?tr) ! i)"
        proof (cases i)
          case 0
          then show ?thesis using ne by (simp add: is_terminal_def)
        next
          case (Suc j)
          then show ?thesis using i ih by simp
        qed
      qed
      have c: "(Some err # ?tr) \<noteq> [] \<and> attempts + length (Some err # ?tr) < 10
                 \<longrightarrow> is_terminal (last (Some err # ?tr))"
        using ih by auto
      show ?thesis unfolding u using a b c by simp
    qed
  qed
qed

lemma delete_loop_exhausted:
  assumes "\<forall>k. a \<le> k \<and> k < 10 \<longrightarrow> \<not> is_terminal (Remove_old_err e k)"
  shows "delete_loop e old a s = (map (Remove_old_err e) [a..<10], s)"
  using assms
proof (induction e old a s rule: delete_loop.induct)
  case (1 e old attempts s)
  show ?case
  proof (cases "attempts < 10")
    case False
    then show ?thesis by (simp add: delete_loop_unfold_done)
  next
    case True
    with "1.prems" obtain err where err: "Remove_old_err e attempts = Some err"
        and ne: "\<not> errors_Is err ErrNotExist"
      by (cases "Remove_old_err e attempts") (auto simp: is_terminal_def)
    have r: "os_Remove_with (Remove_old_err e attempts) old s = (Some err, s)"
      by (simp add: os_Remove_with_def err)
    have "\<forall>k. attempts + 1 \<le> k \<and> k < 10 \<longrightarrow> \<not> is_terminal (Remove_old_err e k)"
      using "1.prems" by simp
    from "1.IH" [OF True r [symmetric] refl ne this]
    have ih: "delete_loop e old (Suc attempts) s = (map (Remove_old_err e) [Suc attempts..<10], s)"
      by simp
    show ?thesis
      using delete_loop_unfold_retry [OF True r ne] ih True err by (simp add: upt_conv_Cons)
  qed
qed

text \<open>
  C9.  \<^verbatim>\<open>DeleteOldExecutable\<close> calls \<^verbatim>\<open>os.Remove\<close> on the \<^verbatim>\<open>.old\<close> file at most 10 times; every
  attempt but the last one made was a failure other than "does not exist"; when fewer than
  10 attempts were made the last one succeeded or found no file; a missing file ends the
  loop at the first attempt with nothing changed; and when all 10 attempts fail the function
  still just returns, with the state as it was.  It has no error result.
\<close>

theorem DeleteOldExecutable_retries_at_most_ten_times:
  "length (fst (DeleteOldExecutable_trace e s)) \<le> 10
   \<and> (\<forall>i. Suc i < length (fst (DeleteOldExecutable_trace e s))
          \<longrightarrow> \<not> is_terminal (fst (DeleteOldExecutable_trace e s) ! i))
   \<and> (fst (DeleteOldExecutable_trace e s) \<noteq> [] \<and> length (fst (DeleteOldExecutable_trace e s)) < 10
          \<longrightarrow> is_terminal (last (fst (DeleteOldExecutable_trace e s))))
   \<and> (os_Executable e = Inr p \<and> Remove_old_err e 0 = None \<and> files s (p @ ''.old'') = None
          \<longrightarrow> DeleteOldExecutable_trace e s = ([Some ErrNotExist], s))
   \<and> (os_Executable e = Inr p \<and> (\<forall>k<10. \<not> is_terminal (Remove_old_err e k))
          \<longrightarrow> length (fst (DeleteOldExecutable_trace e s)) = 10 \<and> DeleteOldExecutable e s = s)"
proof (intro conjI)
  show "length (fst (DeleteOldExecutable_trace e s)) \<le> 10"
    using delete_loop_trace [of e _ 0 s]
    by (cases "os_Executable e") (simp_all add: DeleteOldExecutable_trace_def)
  show "\<forall>i. Suc i < length (fst (DeleteOldExecutable_trace e s))
          \<longrightarrow> \<not> is_terminal (fst (DeleteOldExecutable_trace e s) ! i)"
    using delete_loop_trace [of e _ 0 s]
    by (cases "os_Executable e") (simp_all add: DeleteOldExecutable_trace_def)
  show "fst (DeleteOldExecutable_trace e s) \<noteq> [] \<and> length (fst (DeleteOldExecutable_trace e s)) < 10
          \<longrightarrow> is_terminal (last (fst (DeleteOldExecutable_trace e s)))"
    using delete_loop_trace [of e _ 0 s]
    by (cases "os_Executable e") (simp_all add: DeleteOldExecutable_trace_def)
  show "os_Executable e = Inr p \<and> Remove_old_err e 0 = None \<and> files s (p @ ''.old'') = None
          \<longrightarrow> DeleteOldExecutable_trace e s = ([Some ErrNotExist], s)"
  proof
    assume a: "os_Executable e = Inr p \<and> Remove_old_err e 0 = None \<and> files s (p @ ''.old'') = None"
    then have r: "os_Remove_with (Remove_old_err e 0) (p @ ''.old'') s = (Some ErrNotExist, s)"
      by (simp add: os_Remove_with_def)
    have "delete_loop e (p @ ''.old'') 0 s = ([Some ErrNotExist], s)"
      by (rule delete_loop_unfold_stop [OF _ r]) simp_all
    then show "DeleteOldExecutable_trace e s = ([Some ErrNotExist], s)"
      using a by (simp add: DeleteOldExecutable_trace_def)
  qed
  show "os_Executable e = Inr p \<and> (\<forall>k<10. \<not> is_terminal (Remove_old_err e k))
          \<longrightarrow> length (fst (DeleteOldExecutable_trace e s)) = 10 \<and> DeleteOldExecutable e s = s"
  proof
    assume a: "os_Executable e = Inr p \<and> (\<forall>k<10. \<not> is_terminal (Remove_old_err e k))"
    then have "\<forall>k. 0 \<le> k \<and> k < 10 \<longrightarrow> \<not> is_terminal (Remove_old_err e k)" by simp
    from delete_loop_exhausted [OF this, of "p @ ''.old''" s] a
    show "length (fst (DeleteOldExecutable_trace e s)) = 10 \<and> DeleteOldExecutable e s = s"
      by (simp add: DeleteOldExecutable_trace_def DeleteOldExecutable_def)
  qed
qed

theorem DeleteOldExecutable_retries_at_most_ten_times_witness:
  "fst (DeleteOldExecutable_trace (busy_env 3) (initial_state leftover_files))
      = [Some (SysError ''busy''), Some (SysError ''busy''), Some (SysError ''busy''), None]
   \<and> length (fst (DeleteOldExecutable_trace (busy_env 3) (initial_state leftover_files))) \<le> 10
   \<and> \<not> is_terminal (fst (DeleteOldExecutable_trace (busy_env 3) (initial_state leftover_files)) ! 0)
   \<and> is_terminal (last (fst (DeleteOldExecutable_trace (busy_env 3) (initial_state leftover_files))))
   \<and> files (DeleteOldExecutable (busy_env 3) (initial_state leftover_files)) ''/opt/vi.old'' = None
   \<and> os_Executable example_env = Inr ''/opt/vi''
   \<and> Remove_old_err example_env 0 = None
   \<and> files (initial_state example_files) (''/opt/vi'' @ ''.old'') = None
   \<and> DeleteOldExecutable_trace example_env (initial_state example_files)
        = ([Some ErrNotExist], initial_state example_files)
   \<and> os_Executable (busy_env 10) = Inr ''/opt/vi''
   \<and> length (fst (DeleteOldExecutable_trace (busy_env 10) (initial_state leftover_files))) = 10
   \<and> DeleteOldExecutable (busy_env 10) (initial_state leftover_files) = initial_state leftover_files"
proof -
  let ?tr = "fst (DeleteOldExecutable_trace (busy_env 3) (initial_state leftover_files))"
  have tr: "?tr = [Some (SysError ''busy''), Some (SysError ''busy''), Some (SysError ''busy''), None]"
    by (simp add: DeleteOldExecutable_trace_def busy_env_def example_env_def delete_loop.simps
          os_Remove_with_def initial_state_def leftover_files_def example_files_def)
  have gone: "files (DeleteOldExecutable (busy_env 3) (initial_state leftover_files)) ''/opt/vi.old'' = None"
    by (simp add: DeleteOldExecutable_def DeleteOldExecutable_trace_def busy_env_def example_env_def
          delete_loop.simps os_Remove_with_def initial_state_def leftover_files_def example_files_def)
  have x: "os_Executable example_env = Inr ''/opt/vi''" "Remove_old_err example_env 0 = None"
      "files (initial_state example_files) (''/opt/vi'' @ ''.old'') = None"
    by (simp_all add: example_env_def initial_state_def example_files_def)
  have y: "os_Executable (busy_env 10) = Inr ''/opt/vi''"
      "\<forall>k<10. \<not> is_terminal (Remove_old_err (busy_env 10) k)"
    by (simp_all add: busy_env_def example_env_def is_terminal_def)
  have ne: "?tr \<noteq> [] \<and> length ?tr < 10" "Suc 0 < length ?tr" by (simp_all add: tr)
  from DeleteOldExecutable_retries_at_most_ten_times
         [of "busy_env 3" "initial_state leftover_files" "''/opt/vi''"] ne
  have a: "length ?tr \<le> 10" "\<not> is_terminal (?tr ! 0)" "is_terminal (last ?tr)" by blast+
  from DeleteOldExecutable_retries_at_most_ten_times
         [of example_env "initial_state example_files" "''/opt/vi''"] x
  have b: "DeleteOldExecutable_trace example_env (initial_state example_files)
        = ([Some ErrNotExist], initial_state example_files)" by blast
  from DeleteOldExecutable_retries_at_most_ten_times
         [of "busy_env 10" "initial_state leftover_files" "''/opt/vi''"] y
  have c: "length (fst (DeleteOldExecutable_trace (busy_env 10) (initial_state leftover_files))) = 10
      \<and> DeleteOldExecutable (busy_env 10) (initial_state leftover_files) = initial_state leftover_files"
    by blast
  show ?thesis using tr gone x y(1) a b c by simp
qed

section \<open>Installing the latest builds\<close>

text \<open>What the steps of a download leave alone: everything but the files and the request log.\<close>

lemma same_vars_refl: "same_vars s s"
  by (simp add: same_vars_def)

lemma same_vars_trans: "same_vars s s1 \<Longrightarrow> same_vars s1 s2 \<Longrightarrow> same_vars s s2"
  by (simp add: same_vars_def)

lemma http_Get_same_vars: "http_Get e url s = (r, s1) \<Longrightarrow> same_vars s s1"
  by (auto simp: http_Get_def same_vars_def)

lemma os_OpenFile_same_vars: "os_OpenFile e p s = Inr s1 \<Longrightarrow> same_vars s s1"
  by (auto simp: os_OpenFile_def same_vars_def split: option.splits)

lemma io_Copy_same_vars: "io_Copy e p res s = (r, s1) \<Longrightarrow> same_vars s s1"
  by (auto simp: io_Copy_def same_vars_def split: option.splits if_splits)

lemma download_loop_same_vars:
  "download_loop e distDir assets s = (r, s') \<Longrightarrow> same_vars s s'"
proof (induction assets arbitrary: s)
  case Nil
  then show ?case by (simp add: same_vars_refl)
next
  case (Cons ass rest)
  let ?lower = "strings_ToLower (asset_Name ass)"
  show ?case
  proof (cases "\<not> is_legal_notice ?lower \<and> is_wanted ?lower")
    case False
    then have "download_loop e distDir (ass # rest) s = download_loop e distDir rest s"
      by (auto simp: Let_def)
    then show ?thesis using Cons by simp
  next
    case True
    obtain g s1 where g: "http_Get e (DownloadURL ass) s = (g, s1)"
      by (cases "http_Get e (DownloadURL ass) s")
    have v1: "same_vars s s1" using http_Get_same_vars [OF g] .
    show ?thesis
    proof (cases g)
      case (Inl err)
      then show ?thesis using Cons.prems True g v1 by (auto simp: Let_def)
    next
      case (Inr res)
      show ?thesis
      proof (cases "StatusCode res \<ge> 300")
        case True
        then show ?thesis using Cons.prems \<open>\<not> is_legal_notice ?lower \<and> is_wanted ?lower\<close> g Inr v1
          by (auto simp: Let_def)
      next
        case False
        let ?p = "path_Join e distDir (asset_Name ass)"
        show ?thesis
        proof (cases "os_OpenFile e ?p s1")
          case (Inl err)
          then show ?thesis
            using Cons.prems \<open>\<not> is_legal_notice ?lower \<and> is_wanted ?lower\<close> g Inr False v1
            by (auto simp: Let_def)
        next
          case o: (Inr s2)
          have v2: "same_vars s1 s2" using os_OpenFile_same_vars [OF o] .
          obtain n c s3 where c: "io_Copy e ?p res s2 = ((n, c), s3)"
            by (cases "io_Copy e ?p res s2") auto
          have v3: "same_vars s2 s3" using io_Copy_same_vars [OF c] .
          have v: "same_vars s s3" using v1 v2 v3 same_vars_trans by blast
          show ?thesis
          proof (cases c)
            case None
            then have "download_loop e distDir (ass # rest) s = download_loop e distDir rest s3"
              using \<open>\<not> is_legal_notice ?lower \<and> is_wanted ?lower\<close> g Inr False o c
              by (auto simp: Let_def)
            then have "same_vars s3 s'" using Cons by simp
            then show ?thesis using v same_vars_trans by blast
          next
            case (Some err)
            then have "download_loop e distDir (ass # rest) s = (Some err, s3)"
              using \<open>\<not> is_legal_notice ?lower \<and> is_wanted ?lower\<close> g Inr False o c
              by (auto simp: Let_def)
            then show ?thesis using Cons.prems v by simp
          qed
        qed
      qed
    qed
  qed
qed

lemma installLatestBuilds_cases:
  assumes "installLatestBuilds e s = (r, s')"
  shows "(r = None \<and> IsDevInstall s \<and> s' = s)
       \<or> (r \<noteq> None \<and> same_vars s s')
       \<or> (r = None \<and> \<not> IsDevInstall s
            \<and> (\<exists>s1. same_vars s s1 \<and> s' = s1\<lparr>InstalledHash := LatestHash s1\<rparr>))"
proof (cases "IsDevInstall s")
  case True
  then show ?thesis using assms by (simp add: installLatestBuilds_def)
next
  case False
  show ?thesis
  proof (cases "MkdirAll_err e (path_Dir e (VelocityDirectory e))")
    case (Some err)
    then show ?thesis using assms False by (auto simp: installLatestBuilds_def same_vars_refl)
  next
    case None
    obtain d s1 where d: "download_loop e (path_Dir e (VelocityDirectory e)) (Assets (ReleaseData s)) s = (d, s1)"
      by (cases "download_loop e (path_Dir e (VelocityDirectory e)) (Assets (ReleaseData s)) s")
    have v: "same_vars s s1" using download_loop_same_vars [OF d] .
    show ?thesis using assms False None d v
      by (cases d) (auto simp: installLatestBuilds_def Let_def)
  qed
qed

lemma installLatestBuilds_asar_cases:
  assumes "installLatestBuilds_asar e s = (r, s')"
  shows "(r = None \<and> IsDevInstall s \<and> s' = s)
       \<or> (r \<noteq> None \<and> same_vars s s')
       \<or> (r = None \<and> \<not> IsDevInstall s
            \<and> (\<exists>s1. same_vars s s1 \<and> s' = s1\<lparr>InstalledHash := LatestHash s1\<rparr>))"
proof (cases "IsDevInstall s \<or> find_desktop_asar (Assets (ReleaseData s)) = []")
  case True
  then show ?thesis using assms
    by (cases "IsDevInstall s") (auto simp: installLatestBuilds_asar_def Let_def same_vars_refl)
next
  case False
  let ?url = "find_desktop_asar (Assets (ReleaseData s))"
  obtain g s1 where g: "http_Get e ?url s = (g, s1)" by (cases "http_Get e ?url s")
  have v1: "same_vars s s1" using http_Get_same_vars [OF g] .
  show ?thesis
  proof (cases g)
    case (Inl err)
    then show ?thesis using assms False g v1 by (auto simp: installLatestBuilds_asar_def)
  next
    case (Inr res)
    show ?thesis
    proof (cases "StatusCode res \<ge> 300")
      case True
      then show ?thesis using assms False g Inr v1 by (auto simp: installLatestBuilds_asar_def)
    next
      case ok: False
      show ?thesis
      proof (cases "os_OpenFile e (VelocityDirectory e) s1")
        case (Inl err)
        then show ?thesis using assms False g Inr ok v1 by (auto simp: installLatestBuilds_asar_def)
      next
        case o: (Inr s2)
        have v2: "same_vars s1 s2" using os_OpenFile_same_vars [OF o] .
        obtain n c s3 where c: "io_Copy e (VelocityDirectory e) res s2 = ((n, c), s3)"
          by (cases "io_Copy e (VelocityDirectory e) res s2") auto
        have v3: "same_vars s2 s3" using io_Copy_same_vars [OF c] .
        have v: "same_vars s s3" using v1 v2 v3 same_vars_trans by blast
        show ?thesis using assms False g Inr ok o c v
          by (cases c) (auto simp: installLatestBuilds_asar_def Let_def split: if_splits)
      qed
    qed
  qed
qed

text \<open>
  C10.  A call that returns no error outside dev-install mode ends with \<open>InstalledHash\<close>
  equal to \<open>LatestHash\<close> (which the call does not change), so the comparison that follows
  says "up to date"; a call that returns an error leaves \<open>InstalledHash\<close> as it was.  Both
  hold for the asset loop of \<^verbatim>\<open>github_downloader.go\<close> and for the single-archive variant.
\<close>

theorem installLatestBuilds_sets_InstalledHash_last:
  "(installLatestBuilds e s = (None, s') \<and> \<not> IsDevInstall s \<longrightarrow>
      InstalledHash s' = LatestHash s' \<and> LatestHash s' = LatestHash s
      \<and> install_status s' = ''up to date!'')
   \<and> (installLatestBuilds e s = (Some err, s') \<longrightarrow> InstalledHash s' = InstalledHash s)
   \<and> (installLatestBuilds_asar e s = (None, s') \<and> \<not> IsDevInstall s \<longrightarrow>
      InstalledHash s' = LatestHash s' \<and> LatestHash s' = LatestHash s
      \<and> install_status s' = ''up to date!'')
   \<and> (installLatestBuilds_asar e s = (Some err, s') \<longrightarrow> InstalledHash s' = InstalledHash s)"
proof -
  have a: "installLatestBuilds e s = (None, s') \<and> \<not> IsDevInstall s \<longrightarrow>
      InstalledHash s' = LatestHash s' \<and> LatestHash s' = LatestHash s
      \<and> install_status s' = ''up to date!''"
  proof
    assume "installLatestBuilds e s = (None, s') \<and> \<not> IsDevInstall s"
    then obtain s1 where "same_vars s s1" "s' = s1\<lparr>InstalledHash := LatestHash s1\<rparr>"
      using installLatestBuilds_cases [of e s None s'] by auto
    then show "InstalledHash s' = LatestHash s' \<and> LatestHash s' = LatestHash s
        \<and> install_status s' = ''up to date!''"
      by (simp add: same_vars_def install_status_def)
  qed
  have b: "installLatestBuilds e s = (Some err, s') \<longrightarrow> InstalledHash s' = InstalledHash s"
    using installLatestBuilds_cases [of e s "Some err" s'] by (auto simp: same_vars_def)
  have c: "installLatestBuilds_asar e s = (None, s') \<and> \<not> IsDevInstall s \<longrightarrow>
      InstalledHash s' = LatestHash s' \<and> LatestHash s' = LatestHash s
      \<and> install_status s' = ''up to date!''"
  proof
    assume "installLatestBuilds_asar e s = (None, s') \<and> \<not> IsDevInstall s"
    then obtain s1 where "same_vars s s1" "s' = s1\<lparr>InstalledHash := LatestHash s1\<rparr>"
      using installLatestBuilds_asar_cases [of e s None s'] by auto
    then show "InstalledHash s' = LatestHash s' \<and> LatestHash s' = LatestHash s
        \<and> install_status s' = ''up to date!''"
      by (simp add: same_vars_def install_status_def)
  qed
  have d: "installLatestBuilds_asar e s = (Some err, s') \<longrightarrow> InstalledHash s' = InstalledHash s"
    using installLatestBuilds_asar_cases [of e s "Some err" s'] by (auto simp: same_vars_def)
  show ?thesis using a b c d by blast
qed

lemma fetched_state_is_fetched:
  "githubFetchTask example_env (initial_state example_files) = fetched_state"
proof -
  have "drop (nat (strings_LastIndex (Name example_release) '' '' + 1)) (Name example_release)
          = ''abc123''"
    by (simp add: example_release_def strings_LastIndex_def)
  then show ?thesis
    unfolding githubFetchTask_success [OF example_fetch]
    by (simp add: send_done_def fetched_state_def initial_state_def)
qed


theorem installLatestBuilds_sets_InstalledHash_last_witness:
  "fst (installLatestBuilds example_env fetched_state) = None
   \<and> \<not> IsDevInstall fetched_state
   \<and> InstalledHash fetched_state = ''None''
   \<and> InstalledHash (snd (installLatestBuilds example_env fetched_state)) = ''abc123''
   \<and> install_status (snd (installLatestBuilds example_env fetched_state)) = ''up to date!''
   \<and> fst (installLatestBuilds readonly_env fetched_state) = Some (SysError ''read-only file system'')
   \<and> InstalledHash (snd (installLatestBuilds readonly_env fetched_state)) = ''None''
   \<and> fst (installLatestBuilds_asar example_env fetched_state) = None
   \<and> InstalledHash (snd (installLatestBuilds_asar example_env fetched_state)) = ''abc123''
   \<and> fst (installLatestBuilds_asar readonly_env fetched_state)
        = Some (SysError ''read-only file system'')
   \<and> InstalledHash (snd (installLatestBuilds_asar readonly_env fetched_state)) = ''None''"
proof -
  have r1: "fst (installLatestBuilds example_env fetched_state) = None" by code_simp
  have r2: "fst (installLatestBuilds readonly_env fetched_state)
              = Some (SysError ''read-only file system'')" by code_simp
  have r3: "fst (installLatestBuilds_asar example_env fetched_state) = None" by code_simp
  have r4: "fst (installLatestBuilds_asar readonly_env fetched_state)
        = Some (SysError ''read-only file system'')"
    by code_simp
  have i: "\<not> IsDevInstall fetched_state" "InstalledHash fetched_state = ''None''"
      "LatestHash fetched_state = ''abc123''"
    by (simp_all add: fetched_state_def initial_state_def)
  have e1: "installLatestBuilds example_env fetched_state
              = (None, snd (installLatestBuilds example_env fetched_state))"
    using r1 by (metis prod.collapse)
  have e2: "installLatestBuilds readonly_env fetched_state
              = (Some (SysError ''read-only file system''),
                 snd (installLatestBuilds readonly_env fetched_state))"
    using r2 by (metis prod.collapse)
  have e3: "installLatestBuilds_asar example_env fetched_state
              = (None, snd (installLatestBuilds_asar example_env fetched_state))"
    using r3 by (metis prod.collapse)
  have e4: "installLatestBuilds_asar readonly_env fetched_state
              = (Some (SysError ''read-only file system''),
                 snd (installLatestBuilds_asar readonly_env fetched_state))"
    using r4 by (metis prod.collapse)
  from installLatestBuilds_sets_InstalledHash_last
         [of example_env fetched_state "snd (installLatestBuilds example_env fetched_state)"] e1 i
  have a: "InstalledHash (snd (installLatestBuilds example_env fetched_state)) = ''abc123''"
       "install_status (snd (installLatestBuilds example_env fetched_state)) = ''up to date!''"
    by simp_all
  from installLatestBuilds_sets_InstalledHash_last
         [of readonly_env fetched_state "snd (installLatestBuilds readonly_env fetched_state)"
             "SysError ''read-only file system''"] e2 i
  have b: "InstalledHash (snd (installLatestBuilds readonly_env fetched_state)) = ''None''"
    by simp
  from installLatestBuilds_sets_InstalledHash_last
         [of example_env fetched_state "snd (installLatestBuilds_asar example_env fetched_state)"] e3 i
  have c: "InstalledHash (snd (installLatestBuilds_asar example_env fetched_state)) = ''abc123''"
    by simp
  from installLatestBuilds_sets_InstalledHash_last
         [of readonly_env fetched_state "snd (installLatestBuilds_asar readonly_env fetched_state)"
             "SysError ''read-only file system''"] e4 i
  have d: "InstalledHash (snd (installLatestBuilds_asar readonly_env fetched_state)) = ''None''"
    by simp
  show ?thesis using r1 r2 r3 r4 i a b c d by simp
qed

section \<open>Which assets are downloaded\<close>

lemma lower_char_not_upper_M: "lower_char c \<noteq> CHR ''M''"
proof (cases "65 \<le> (of_char c :: nat) \<and> (of_char c :: nat) \<le> 90")
  case True
  have "(of_char (lower_char c) :: nat) = (of_char c + 32) mod 256"
    using True by (simp add: lower_char_def)
  also have "\<dots> = of_char c + 32" using True by simp
  finally have "(of_char (lower_char c) :: nat) \<ge> 97" using True by simp
  moreover have "(of_char (CHR ''M'') :: nat) = 77" by simp
  ultimately show ?thesis by force
next
  case False
  then have "lower_char c = c" by (auto simp: lower_char_def)
  moreover have "(of_char (CHR ''M'') :: nat) = 77" by simp
  ultimately show ?thesis using False by force
qed

lemma sublist_set: "sublist xs ys \<Longrightarrow> set xs \<subseteq> set ys"
  by (auto simp: sublist_def)

lemma main_bundle_rule_never_matches:
  "strings_Contains (strings_ToLower n) ''velocitydesktopMain'' = False"
proof -
  have "CHR ''M'' \<notin> set (strings_ToLower n)"
  proof
    assume "CHR ''M'' \<in> set (strings_ToLower n)"
    then obtain c where "lower_char c = CHR ''M''" by (auto simp: strings_ToLower_def)
    then show False using lower_char_not_upper_M [of c] by simp
  qed
  moreover have "CHR ''M'' \<in> set ''velocitydesktopMain''" by simp
  ultimately show ?thesis
    using sublist_set [of "''velocitydesktopMain''" "strings_ToLower n"]
    by (auto simp: strings_Contains_def)
qed

lemma http_Get_requests: "http_Get e url s = (r, s1) \<Longrightarrow> requests s1 = requests s @ [url]"
  by (auto simp: http_Get_def)

lemma os_OpenFile_requests: "os_OpenFile e p s = Inr s1 \<Longrightarrow> requests s1 = requests s"
  by (auto simp: os_OpenFile_def split: option.splits)

lemma io_Copy_requests: "io_Copy e p res s = (r, s1) \<Longrightarrow> requests s1 = requests s"
  by (auto simp: io_Copy_def split: option.splits if_splits)

lemma download_loop_skip:
  "\<not> selected ass \<Longrightarrow> download_loop e distDir (ass # rest) s = download_loop e distDir rest s"
  by (auto simp: selected_def Let_def)

text \<open>
  The requests the loop sends are those for the selected assets, in the order of the asset
  list: all of them when it returns no error, an initial part of them otherwise.
\<close>

lemma download_loop_requests:
  "download_loop e distDir assets s = (r, s') \<Longrightarrow>
     (\<exists>k. requests s' = requests s @ take k (map DownloadURL (filter selected assets)))
     \<and> (r = None \<longrightarrow> requests s' = requests s @ map DownloadURL (filter selected assets))"
proof (induction assets arbitrary: s)
  case Nil
  then show ?case by simp
next
  case (Cons ass rest)
  show ?case
  proof (cases "selected ass")
    case False
    from Cons.IH [OF Cons.prems [unfolded download_loop_skip [OF False]]] False
    show ?thesis by simp
  next
    case True
    let ?url = "DownloadURL ass"
    let ?sel = "map DownloadURL (filter selected rest)"
    have sel: "map DownloadURL (filter selected (ass # rest)) = ?url # ?sel" using True by simp
    have t: "\<not> is_legal_notice (strings_ToLower (asset_Name ass))"
        "is_wanted (strings_ToLower (asset_Name ass))"
      using True by (simp_all add: selected_def)
    obtain g s1 where g: "http_Get e ?url s = (g, s1)" by (cases "http_Get e ?url s")
    have q1: "requests s1 = requests s @ [?url]" using http_Get_requests [OF g] .
    have stop: "(\<exists>k. requests s' = requests s @ take k (?url # ?sel))
        \<and> (r = None \<longrightarrow> requests s' = requests s @ (?url # ?sel))"
      if "r \<noteq> None" "requests s' = requests s @ [?url]"
    proof -
      have "requests s' = requests s @ take (Suc 0) (?url # ?sel)" using that(2) by simp
      then show ?thesis using that(1) by blast
    qed
    let ?p = "path_Join e distDir (asset_Name ass)"
    consider (neterr) err where "g = Inl err"
      | (status) res where "g = Inr res" "StatusCode res \<ge> 300"
      | (openerr) res err where "g = Inr res" "\<not> StatusCode res \<ge> 300" "os_OpenFile e ?p s1 = Inl err"
      | (copy) res s2 where "g = Inr res" "\<not> StatusCode res \<ge> 300" "os_OpenFile e ?p s1 = Inr s2"
      by (cases g; cases "os_OpenFile e ?p s1") auto
    then show ?thesis
    proof cases
      case neterr
      then have "r \<noteq> None \<and> s' = s1" using Cons.prems t g by (auto simp: Let_def)
      then show ?thesis unfolding sel using q1 stop by simp
    next
      case status
      then have "r \<noteq> None \<and> s' = s1" using Cons.prems t g by (auto simp: Let_def)
      then show ?thesis unfolding sel using q1 stop by simp
    next
      case openerr
      then have "r \<noteq> None \<and> s' = s1" using Cons.prems t g by (auto simp: Let_def)
      then show ?thesis unfolding sel using q1 stop by simp
    next
      case copy
      obtain n c s3 where c: "io_Copy e ?p (projr g) s2 = ((n, c), s3)"
        by (cases "io_Copy e ?p (projr g) s2") auto
      have q3: "requests s3 = requests s @ [?url]"
        using io_Copy_requests [OF c] os_OpenFile_requests [OF copy(3)] q1 by simp
      show ?thesis
      proof (cases c)
        case (Some err)
        then have "r \<noteq> None \<and> s' = s3" using Cons.prems t g copy c by (auto simp: Let_def)
        then show ?thesis unfolding sel using q3 stop by simp
      next
        case None
        then have "download_loop e distDir rest s3 = (r, s')"
          using Cons.prems t g copy c by (auto simp: Let_def)
        from Cons.IH [OF this] obtain k where
          k: "requests s' = requests s3 @ take k ?sel"
          and all: "r = None \<longrightarrow> requests s' = requests s3 @ ?sel" by blast
        have "requests s' = requests s @ take (Suc k) (?url # ?sel)" using k q3 by simp
        moreover have "r = None \<longrightarrow> requests s' = requests s @ (?url # ?sel)" using all q3 by simp
        ultimately show ?thesis unfolding sel by blast
      qed
    qed
  qed
qed

lemma installLatestBuilds_requests:
  assumes "installLatestBuilds e s = (None, s')" and "\<not> IsDevInstall s"
  shows "requests s' = requests s @ map DownloadURL (filter selected (Assets (ReleaseData s)))"
proof -
  let ?d = "path_Dir e (VelocityDirectory e)"
  obtain r s1 where d: "download_loop e ?d (Assets (ReleaseData s)) s = (r, s1)"
    by (cases "download_loop e ?d (Assets (ReleaseData s)) s")
  have "r = None \<and> s' = s1\<lparr>InstalledHash := LatestHash s1\<rparr>"
    using assms d by (cases r; cases "MkdirAll_err e ?d") (auto simp: installLatestBuilds_def Let_def)
  then show ?thesis using download_loop_requests [OF d] by simp
qed

text \<open>The third test of \<open>is_wanted\<close> contributes nothing: the other four decide alone.\<close>

lemma is_wanted_without_main_rule:
  "is_wanted (strings_ToLower n) =
     (strings_Contains (strings_ToLower n) ''preload'' \<or>
      strings_Contains (strings_ToLower n) ''patcher'' \<or>
      strings_Contains (strings_ToLower n) ''velocitydesktoprenderer'' \<or>
      (strings_Contains (strings_ToLower n) ''renderer''
       \<and> \<not> strings_Contains (strings_ToLower n) ''velocitydesktop''))"
  by (simp add: is_wanted_def main_bundle_rule_never_matches)

text \<open>
  C3.  The release of the example lists the main bundle \<^verbatim>\<open>velocityDesktopMain.js\<close>, the
  patcher, the patcher's legal notice and an archive.  The loop selects the patcher alone:
  the legal notice is excluded although it contains \<^verbatim>\<open>patcher\<close>, and the main bundle is not
  selected, not requested and not written, because its lowercased name is compared with a
  string that has a capital letter in it.
\<close>

theorem main_bundle_asset_is_not_downloaded:
  "filter selected example_assets
      = [\<lparr>asset_Name = ''patcher.js'', DownloadURL = ''https://dl.test/patcher''\<rparr>]
   \<and> strings_Contains (strings_ToLower ''velocityDesktopMain.js'') ''velocitydesktopmain''
   \<and> fst (installLatestBuilds example_env fetched_state) = None
   \<and> requests (snd (installLatestBuilds example_env fetched_state))
        = [ReleaseUrl, ''https://dl.test/patcher'']
   \<and> files (snd (installLatestBuilds example_env fetched_state))
        ''/cfg/Velocity/velocityDesktopMain.js'' = None"
proof (intro conjI)
  show "filter selected example_assets
      = [\<lparr>asset_Name = ''patcher.js'', DownloadURL = ''https://dl.test/patcher''\<rparr>]"
    by code_simp
  show "strings_Contains (strings_ToLower ''velocityDesktopMain.js'') ''velocitydesktopmain''"
    by code_simp
  show "fst (installLatestBuilds example_env fetched_state) = None" by code_simp
  show "requests (snd (installLatestBuilds example_env fetched_state))
        = [ReleaseUrl, ''https://dl.test/patcher'']"
    by code_simp
  show "files (snd (installLatestBuilds example_env fetched_state))
        ''/cfg/Velocity/velocityDesktopMain.js'' = None"
    by code_simp
qed

section \<open>The length of a download\<close>

text \<open>The decimal form determines the number.\<close>

lemma uitoa_small: "n < 10 \<Longrightarrow> uitoa n = [digit_char n]"
  by (simp add: uitoa.simps)

lemma uitoa_large: "\<not> n < 10 \<Longrightarrow> uitoa n = uitoa (n div 10) @ [digit_char (n mod 10)]"
  by (subst uitoa.simps) simp

lemma digit_char_value: "d < 10 \<Longrightarrow> (of_char (digit_char d) :: nat) - 48 = d"
  by (simp add: digit_char_def)

lemma digits_value_snoc: "digits_value (s @ [c]) = 10 * digits_value s + (of_char c - 48)"
  by (simp add: digits_value_def)

lemma digits_value_uitoa: "digits_value (uitoa n) = n"
proof (induction n rule: uitoa.induct)
  case (1 n)
  show ?case
  proof (cases "n < 10")
    case True
    then show ?thesis by (simp add: uitoa_small digits_value_def digit_char_value)
  next
    case False
    have "digits_value (uitoa n) = 10 * digits_value (uitoa (n div 10)) + (n mod 10)"
      by (simp add: uitoa_large [OF False] digits_value_snoc digit_char_value)
    also have "\<dots> = 10 * (n div 10) + n mod 10" using "1.IH" [OF False] by simp
    finally show ?thesis by simp
  qed
qed

lemma FormatInt_inj_nonneg:
  assumes "0 \<le> a" "0 \<le> b" "strconv_FormatInt a = strconv_FormatInt b"
  shows "a = b"
proof -
  have "uitoa (nat a) = uitoa (nat b)" using assms by (simp add: strconv_FormatInt_def)
  then have "digits_value (uitoa (nat a)) = digits_value (uitoa (nat b))" by simp
  then have "nat a = nat b" by (simp add: digits_value_uitoa)
  then show ?thesis using assms by simp
qed

text \<open>
  The single-archive variant compares the bytes it wrote with the declared length: when it
  returns no error the file holds the whole body, and the header is the decimal form of
  the body's length.
\<close>

lemma io_Copy_complete:
  assumes "io_Copy e p res s = ((n, None), s1)"
  shows "n = int (length (Body res)) \<and> files s1 p = Some (Body res)"
  using assms by (auto simp: io_Copy_def split: option.splits if_splits)

lemma installLatestBuilds_asar_checks_length:
  assumes ok: "installLatestBuilds_asar e s = (None, s')" and nd: "\<not> IsDevInstall s"
  shows "\<exists>res. http_Do e (find_desktop_asar (Assets (ReleaseData s))) = Inr res
           \<and> files s' (VelocityDirectory e) = Some (Body res)
           \<and> ContentLength res = strconv_FormatInt (int (length (Body res)))"
proof -
  let ?url = "find_desktop_asar (Assets (ReleaseData s))"
  have u: "?url \<noteq> []" using ok nd by (auto simp: installLatestBuilds_asar_def Let_def split: if_splits)
  obtain g s1 where g: "http_Get e ?url s = (g, s1)" by (cases "http_Get e ?url s")
  have gd: "g = http_Do e ?url" using g by (simp add: http_Get_def)
  show ?thesis
  proof (cases g)
    case (Inl err)
    then show ?thesis using ok nd u g by (simp add: installLatestBuilds_asar_def)
  next
    case (Inr res)
    have st: "\<not> StatusCode res \<ge> 300"
      using ok nd u g Inr by (auto simp: installLatestBuilds_asar_def split: if_splits)
    show ?thesis
    proof (cases "os_OpenFile e (VelocityDirectory e) s1")
      case (Inl err)
      then show ?thesis using ok nd u g Inr st by (simp add: installLatestBuilds_asar_def)
    next
      case o: (Inr s2)
      obtain n c s3 where c: "io_Copy e (VelocityDirectory e) res s2 = ((n, c), s3)"
        by (cases "io_Copy e (VelocityDirectory e) res s2") auto
      show ?thesis
      proof (cases c)
        case (Some err)
        then show ?thesis using ok nd u g Inr st o c by (simp add: installLatestBuilds_asar_def)
      next
        case None
        have eq: "strconv_FormatInt n = ContentLength res"
            and s': "s' = s3\<lparr>InstalledHash := LatestHash s3\<rparr>"
          using ok nd u g Inr st o c None
          by (auto simp: installLatestBuilds_asar_def Let_def split: if_splits)
        from io_Copy_complete [OF c [unfolded None]]
        have "n = int (length (Body res))" "files s3 (VelocityDirectory e) = Some (Body res)"
          by simp_all
        then show ?thesis using eq s' Inr gd by auto
      qed
    qed
  qed
qed

lemma installLatestBuilds_asar_exact_length:
  assumes "installLatestBuilds_asar e s = (None, s')" and "\<not> IsDevInstall s"
      and "http_Do e (find_desktop_asar (Assets (ReleaseData s))) = Inr res"
      and "ContentLength res = strconv_FormatInt (int N)"
  shows "files s' (VelocityDirectory e) = Some (Body res) \<and> length (Body res) = N"
proof -
  from installLatestBuilds_asar_checks_length [OF assms(1,2)] assms(3)
  have f: "files s' (VelocityDirectory e) = Some (Body res)"
    and c: "ContentLength res = strconv_FormatInt (int (length (Body res)))" by auto
  have "int (length (Body res)) = int N"
    using c assms(4) FormatInt_inj_nonneg [of "int (length (Body res))" "int N"] by simp
  then show ?thesis using f by simp
qed

text \<open>The loop is the iteration of \<open>download_asset\<close> over the selected assets.\<close>

lemma download_loop_step:
  "selected ass \<Longrightarrow>
     download_loop e distDir (ass # rest) s =
       (case download_asset e distDir ass s of
          (Some err, s1) \<Rightarrow> (Some err, s1)
        | (None, s1) \<Rightarrow> download_loop e distDir rest s1)"
  by (auto simp: selected_def download_asset_def Let_def split: prod.splits sum.splits option.splits)

text \<open>Whether one download fails, and how, does not depend on the state it starts in.\<close>

lemma download_asset_result_indep:
  "fst (download_asset e distDir ass s) = fst (download_asset e distDir ass s0)"
  by (auto simp: download_asset_def http_Get_def os_OpenFile_def io_Copy_def Let_def
           split: prod.splits sum.splits option.splits)

lemma download_asset_ok:
  assumes "download_asset e distDir ass s = (None, s')"
      and "http_Do e (DownloadURL ass) = Inr res"
  shows "BodyErr res = None \<and> files s' (path_Join e distDir (asset_Name ass)) = Some (Body res)"
  using assms
  by (auto simp: download_asset_def http_Get_def os_OpenFile_def io_Copy_def Let_def
           split: prod.splits sum.splits option.splits if_splits)

lemma download_asset_stream_error:
  assumes "http_Do e (DownloadURL ass) = Inr res"
      and "\<not> StatusCode res \<ge> 300"
      and "OpenFile_err e (path_Join e distDir (asset_Name ass)) = None"
      and "Write_fault e (path_Join e distDir (asset_Name ass)) = None"
  shows "fst (download_asset e distDir ass s) = BodyErr res"
  using assms
  by (auto simp: download_asset_def http_Get_def os_OpenFile_def io_Copy_def Let_def
           split: prod.splits sum.splits option.splits if_splits)

lemma download_loop_all_ok:
  "download_loop e distDir assets s = (None, s') \<Longrightarrow> ass \<in> set assets \<Longrightarrow> selected ass
     \<Longrightarrow> fst (download_asset e distDir ass s0) = None"
proof (induction assets arbitrary: s)
  case Nil
  then show ?case by simp
next
  case (Cons a rest)
  show ?case
  proof (cases "selected a")
    case False
    then have "ass \<in> set rest" using Cons.prems by auto
    from Cons.IH [OF Cons.prems(1) [unfolded download_loop_skip [OF False]] this Cons.prems(3)]
    show ?thesis .
  next
    case True
    obtain r s1 where d: "download_asset e distDir a s = (r, s1)"
      by (cases "download_asset e distDir a s")
    have r: "r = None" and rest: "download_loop e distDir rest s1 = (None, s')"
      using Cons.prems(1) d unfolding download_loop_step [OF True]
      by (cases r; simp)+
    show ?thesis
    proof (cases "ass = a")
      case True
      then show ?thesis using d r download_asset_result_indep [of e distDir a s0 s] by simp
    next
      case False
      then have "ass \<in> set rest" using Cons.prems by auto
      from Cons.IH [OF rest this Cons.prems(3)] show ?thesis .
    qed
  qed
qed

lemma installLatestBuilds_all_ok:
  assumes "installLatestBuilds e s = (None, s')" and "\<not> IsDevInstall s"
      and "ass \<in> set (Assets (ReleaseData s))" and "selected ass"
  shows "fst (download_asset e (path_Dir e (VelocityDirectory e)) ass s0) = None"
proof -
  let ?d = "path_Dir e (VelocityDirectory e)"
  obtain r s1 where d: "download_loop e ?d (Assets (ReleaseData s)) s = (r, s1)"
    by (cases "download_loop e ?d (Assets (ReleaseData s)) s")
  have "r = None"
    using assms(1,2) d by (cases r; cases "MkdirAll_err e ?d") (auto simp: installLatestBuilds_def Let_def)
  then show ?thesis using download_loop_all_ok [OF d [unfolded \<open>r = None\<close>] assms(3,4)] by simp
qed

lemma declared_length_FormatInt:
  assumes "declared_length res = Some N" and "ContentLength res = strconv_FormatInt (int n)"
  shows "N = n"
proof -
  have "N = digits_value (ContentLength res)"
    using assms(1) by (auto simp: declared_length_def split: if_splits)
  also have "\<dots> = digits_value (uitoa n)" using assms(2) by (simp add: strconv_FormatInt_def)
  finally show ?thesis by (simp add: digits_value_uitoa)
qed

lemma delivered_clean_is_complete:
  assumes "net_http_delivers res" and "declared_length res = Some N" and "BodyErr res = None"
  shows "length (Body res) = N"
  using assms by (simp add: net_http_delivers_def)

text \<open>
  C2, counterexample.  The server declares 10 bytes and the connection closes after 4, so
  the body stream ends with \<^verbatim>\<open>io.ErrUnexpectedEOF\<close>.  Both variants of \<^verbatim>\<open>installLatestBuilds\<close>
  fail, and \<open>InstalledHash\<close> is left alone; but the error they return is the stream's own,
  handed back by \<^verbatim>\<open>io.Copy\<close> like any other copy failure, and not the length-mismatch error
  that the single-archive variant builds from the byte count.
\<close>

theorem truncated_download_fails_with_stream_error:
  "declared_length truncated_response = Some 10
   \<and> length (Body truncated_response) = 4
   \<and> net_http_delivers truncated_response
   \<and> fst (installLatestBuilds truncated_env fetched_state) = Some io_ErrUnexpectedEOF
   \<and> fst (installLatestBuilds_asar truncated_env fetched_state) = Some io_ErrUnexpectedEOF
   \<and> io_ErrUnexpectedEOF
        \<noteq> errors_New ''Unexpected end of input. Content-Length was 10, but only read 4''
   \<and> InstalledHash (snd (installLatestBuilds truncated_env fetched_state)) = ''None''
   \<and> InstalledHash (snd (installLatestBuilds_asar truncated_env fetched_state)) = ''None''"
proof (intro conjI)
  show "declared_length truncated_response = Some 10" by code_simp
  show "length (Body truncated_response) = 4" by code_simp
  show "net_http_delivers truncated_response" by code_simp
  show "fst (installLatestBuilds truncated_env fetched_state) = Some io_ErrUnexpectedEOF"
    by code_simp
  show "fst (installLatestBuilds_asar truncated_env fetched_state) = Some io_ErrUnexpectedEOF"
    by code_simp
  show "io_ErrUnexpectedEOF
        \<noteq> errors_New ''Unexpected end of input. Content-Length was 10, but only read 4''"
    by (simp add: io_ErrUnexpectedEOF_def)
  show "InstalledHash (snd (installLatestBuilds truncated_env fetched_state)) = ''None''"
    by code_simp
  show "InstalledHash (snd (installLatestBuilds_asar truncated_env fetched_state)) = ''None''"
    by code_simp
qed

text \<open>
  C2, amended.  Let the response to a download declare a length of \<open>N\<close> bytes and be one that
  \<^verbatim>\<open>net/http\<close> can deliver.  Then the download of an asset succeeds only when the destination
  file holds the whole body and that body has exactly \<open>N\<close> bytes; a stream that yields fewer
  than \<open>N\<close> bytes makes the download, and with it \<^verbatim>\<open>installLatestBuilds\<close>, fail; and the error
  of a download that gets as far as the copy is the one the body stream ended with, as
  \<^verbatim>\<open>io.Copy\<close> returns it.  The same holds for the single-archive variant.
\<close>

theorem download_succeeds_only_with_declared_length:
  assumes delivers: "net_http_delivers res"
      and declared: "declared_length res = Some N"
  shows
    "(http_Do e (DownloadURL ass) = Inr res \<and> download_asset e distDir ass s = (None, s') \<longrightarrow>
        files s' (path_Join e distDir (asset_Name ass)) = Some (Body res)
        \<and> length (Body res) = N)
     \<and> (http_Do e (DownloadURL ass) = Inr res \<and> length (Body res) < N \<longrightarrow>
        fst (download_asset e distDir ass s) \<noteq> None)
     \<and> (http_Do e (DownloadURL ass) = Inr res \<and> StatusCode res < 300
         \<and> OpenFile_err e (path_Join e distDir (asset_Name ass)) = None
         \<and> Write_fault e (path_Join e distDir (asset_Name ass)) = None \<longrightarrow>
        fst (download_asset e distDir ass s) = BodyErr res)
     \<and> (installLatestBuilds e s = (None, s') \<and> \<not> IsDevInstall s
         \<and> ass \<in> set (Assets (ReleaseData s)) \<and> selected ass
         \<and> http_Do e (DownloadURL ass) = Inr res \<longrightarrow>
        length (Body res) = N)
     \<and> (\<not> IsDevInstall s \<and> ass \<in> set (Assets (ReleaseData s)) \<and> selected ass
         \<and> http_Do e (DownloadURL ass) = Inr res \<and> length (Body res) < N \<longrightarrow>
        fst (installLatestBuilds e s) \<noteq> None)
     \<and> (installLatestBuilds_asar e s = (None, s') \<and> \<not> IsDevInstall s
         \<and> http_Do e (find_desktop_asar (Assets (ReleaseData s))) = Inr res \<longrightarrow>
        files s' (VelocityDirectory e) = Some (Body res) \<and> length (Body res) = N)
     \<and> (\<not> IsDevInstall s
         \<and> http_Do e (find_desktop_asar (Assets (ReleaseData s))) = Inr res
         \<and> length (Body res) < N \<longrightarrow>
        fst (installLatestBuilds_asar e s) \<noteq> None)"
proof -
  have one: "files t (path_Join e distDir (asset_Name ass)) = Some (Body res) \<and> length (Body res) = N"
    if "http_Do e (DownloadURL ass) = Inr res" "download_asset e distDir ass s = (None, t)" for t
    using download_asset_ok [OF that(2,1)] delivered_clean_is_complete [OF delivers declared]
    by simp
  have c1: "http_Do e (DownloadURL ass) = Inr res \<and> download_asset e distDir ass s = (None, s') \<longrightarrow>
        files s' (path_Join e distDir (asset_Name ass)) = Some (Body res)
        \<and> length (Body res) = N"
    using one by blast
  have c2: "http_Do e (DownloadURL ass) = Inr res \<and> length (Body res) < N \<longrightarrow>
        fst (download_asset e distDir ass s) \<noteq> None"
  proof (intro impI notI)
    assume a: "http_Do e (DownloadURL ass) = Inr res \<and> length (Body res) < N"
       and n: "fst (download_asset e distDir ass s) = None"
    have "download_asset e distDir ass s = (None, snd (download_asset e distDir ass s))"
      using n by (metis prod.collapse)
    from one [OF _ this] a show False by simp
  qed
  have c3: "http_Do e (DownloadURL ass) = Inr res \<and> StatusCode res < 300
         \<and> OpenFile_err e (path_Join e distDir (asset_Name ass)) = None
         \<and> Write_fault e (path_Join e distDir (asset_Name ass)) = None \<longrightarrow>
        fst (download_asset e distDir ass s) = BodyErr res"
    using download_asset_stream_error [of e ass res distDir s] by auto
  have loop: "length (Body res) = N"
    if "installLatestBuilds e s = (None, t)" "\<not> IsDevInstall s"
       "ass \<in> set (Assets (ReleaseData s))" "selected ass" "http_Do e (DownloadURL ass) = Inr res"
    for t
  proof -
    let ?d = "path_Dir e (VelocityDirectory e)"
    have "fst (download_asset e ?d ass s) = None"
      using installLatestBuilds_all_ok [OF that(1-4)] .
    then have "download_asset e ?d ass s = (None, snd (download_asset e ?d ass s))"
      by (metis prod.collapse)
    from download_asset_ok [OF this that(5)]
    show ?thesis using delivered_clean_is_complete [OF delivers declared] by simp
  qed
  have c4: "installLatestBuilds e s = (None, s') \<and> \<not> IsDevInstall s
         \<and> ass \<in> set (Assets (ReleaseData s)) \<and> selected ass
         \<and> http_Do e (DownloadURL ass) = Inr res \<longrightarrow>
        length (Body res) = N"
    using loop by blast
  have c5: "\<not> IsDevInstall s \<and> ass \<in> set (Assets (ReleaseData s)) \<and> selected ass
         \<and> http_Do e (DownloadURL ass) = Inr res \<and> length (Body res) < N \<longrightarrow>
        fst (installLatestBuilds e s) \<noteq> None"
  proof (intro impI notI)
    assume a: "\<not> IsDevInstall s \<and> ass \<in> set (Assets (ReleaseData s)) \<and> selected ass
         \<and> http_Do e (DownloadURL ass) = Inr res \<and> length (Body res) < N"
       and n: "fst (installLatestBuilds e s) = None"
    have "installLatestBuilds e s = (None, snd (installLatestBuilds e s))"
      using n by (metis prod.collapse)
    from loop [OF this] a show False by simp
  qed
  have asar: "files t (VelocityDirectory e) = Some (Body res) \<and> length (Body res) = N"
    if "installLatestBuilds_asar e s = (None, t)" "\<not> IsDevInstall s"
       "http_Do e (find_desktop_asar (Assets (ReleaseData s))) = Inr res" for t
  proof -
    from installLatestBuilds_asar_checks_length [OF that(1,2)] that(3)
    have f: "files t (VelocityDirectory e) = Some (Body res)"
      and c: "ContentLength res = strconv_FormatInt (int (length (Body res)))" by auto
    show ?thesis using f declared_length_FormatInt [OF declared c] by simp
  qed
  have c6: "installLatestBuilds_asar e s = (None, s') \<and> \<not> IsDevInstall s
         \<and> http_Do e (find_desktop_asar (Assets (ReleaseData s))) = Inr res \<longrightarrow>
        files s' (VelocityDirectory e) = Some (Body res) \<and> length (Body res) = N"
    using asar by blast
  have c7: "\<not> IsDevInstall s
         \<and> http_Do e (find_desktop_asar (Assets (ReleaseData s))) = Inr res
         \<and> length (Body res) < N \<longrightarrow>
        fst (installLatestBuilds_asar e s) \<noteq> None"
  proof (intro impI notI)
    assume a: "\<not> IsDevInstall s
         \<and> http_Do e (find_desktop_asar (Assets (ReleaseData s))) = Inr res
         \<and> length (Body res) < N"
       and n: "fst (installLatestBuilds_asar e s) = None"
    have "installLatestBuilds_asar e s = (None, snd (installLatestBuilds_asar e s))"
      using n by (metis prod.collapse)
    from asar [OF this] a show False by simp
  qed
  show ?thesis using c1 c2 c3 c4 c5 c6 c7 by (intro conjI)
qed

theorem download_succeeds_only_with_declared_length_witness:
  "net_http_delivers example_response
   \<and> declared_length example_response = Some 4
   \<and> http_Do example_env (DownloadURL patcher_asset) = Inr example_response
   \<and> fst (download_asset example_env ''/cfg/Velocity'' patcher_asset fetched_state) = None
   \<and> files (snd (download_asset example_env ''/cfg/Velocity'' patcher_asset fetched_state))
        ''/cfg/Velocity/patcher.js'' = Some ''abcd''
   \<and> length (Body example_response) = 4
   \<and> fst (installLatestBuilds_asar example_env fetched_state) = None
   \<and> files (snd (installLatestBuilds_asar example_env fetched_state)) ''/cfg/Velocity/dist''
        = Some ''abcd''
   \<and> net_http_delivers truncated_response
   \<and> declared_length truncated_response = Some 10
   \<and> http_Do truncated_env (DownloadURL patcher_asset) = Inr truncated_response
   \<and> length (Body truncated_response) < 10
   \<and> fst (download_asset truncated_env ''/cfg/Velocity'' patcher_asset fetched_state)
        = Some io_ErrUnexpectedEOF
   \<and> fst (installLatestBuilds truncated_env fetched_state) \<noteq> None
   \<and> fst (installLatestBuilds_asar truncated_env fetched_state) \<noteq> None"
proof -
  let ?ok = "download_asset example_env ''/cfg/Velocity'' patcher_asset fetched_state"
  let ?asar = "installLatestBuilds_asar example_env fetched_state"
  have d1: "net_http_delivers example_response" by code_simp
  have l1: "declared_length example_response = Some 4" by code_simp
  have g1: "http_Do example_env (DownloadURL patcher_asset) = Inr example_response" by code_simp
  have g1': "http_Do example_env (find_desktop_asar (Assets (ReleaseData fetched_state)))
               = Inr example_response" by code_simp
  have r1: "fst ?ok = None" by code_simp
  have r2: "fst ?asar = None" by code_simp
  have e1: "?ok = (None, snd ?ok)" using r1 by (metis prod.collapse)
  have e2: "?asar = (None, snd ?asar)" using r2 by (metis prod.collapse)
  have p1: "path_Join example_env ''/cfg/Velocity'' (asset_Name patcher_asset)
              = ''/cfg/Velocity/patcher.js''" by code_simp
  have v1: "VelocityDirectory example_env = ''/cfg/Velocity/dist''" by code_simp
  have b1: "Body example_response = ''abcd''" by code_simp
  have nd: "\<not> IsDevInstall fetched_state" by code_simp
  from download_succeeds_only_with_declared_length [OF d1 l1,
         where e = example_env and ass = patcher_asset and distDir = "''/cfg/Velocity''"
           and s = fetched_state and s' = "snd ?ok"] g1 e1
  have a: "files (snd ?ok) (path_Join example_env ''/cfg/Velocity'' (asset_Name patcher_asset))
             = Some (Body example_response) \<and> length (Body example_response) = 4"
    by blast
  from download_succeeds_only_with_declared_length [OF d1 l1,
         where e = example_env and s = fetched_state and s' = "snd ?asar"] g1' e2 nd
  have b: "files (snd ?asar) (VelocityDirectory example_env) = Some (Body example_response)"
    by blast
  have d2: "net_http_delivers truncated_response" by code_simp
  have l2: "declared_length truncated_response = Some 10" by code_simp
  have g2: "http_Do truncated_env (DownloadURL patcher_asset) = Inr truncated_response"
    by code_simp
  have g2': "http_Do truncated_env (find_desktop_asar (Assets (ReleaseData fetched_state)))
               = Inr truncated_response" by code_simp
  have t2: "length (Body truncated_response) < 10" by code_simp
  have m2: "patcher_asset \<in> set (Assets (ReleaseData fetched_state))" "selected patcher_asset"
    by code_simp+
  have f2: "StatusCode truncated_response < 300"
      "OpenFile_err truncated_env (path_Join truncated_env ''/cfg/Velocity'' (asset_Name patcher_asset)) = None"
      "Write_fault truncated_env (path_Join truncated_env ''/cfg/Velocity'' (asset_Name patcher_asset)) = None"
      "BodyErr truncated_response = Some io_ErrUnexpectedEOF"
    by code_simp+
  from download_succeeds_only_with_declared_length [OF d2 l2,
         where e = truncated_env and ass = patcher_asset and distDir = "''/cfg/Velocity''"
           and s = fetched_state] g2 g2' t2 m2 f2 nd
  have c: "fst (download_asset truncated_env ''/cfg/Velocity'' patcher_asset fetched_state)
             = BodyErr truncated_response"
      "fst (installLatestBuilds truncated_env fetched_state) \<noteq> None"
      "fst (installLatestBuilds_asar truncated_env fetched_state) \<noteq> None"
    by blast+
  show ?thesis using d1 l1 g1 r1 r2 a b p1 v1 b1 d2 l2 g2 t2 c f2(4) by simp
qed

section \<open>Up to date or outdated\<close>

text \<open>
  C4, counterexample.  At process start the two identifiers hold different sentinels, so
  they are not equal and the install counts as outdated.
\<close>

theorem initial_sentinels_differ:
  "\<not> IsDevInstall (initial_state example_files)
   \<and> InstalledHash (initial_state example_files) = ''None''
   \<and> LatestHash (initial_state example_files) = ''Unknown''
   \<and> InstalledHash (initial_state example_files) \<noteq> LatestHash (initial_state example_files)
   \<and> install_status (initial_state example_files) = ''outdated!''"
  by (simp add: initial_state_def install_status_def)

text \<open>
  C4, amended.  The comparison, which is made only when dev-install mode is off, says "up
  to date" exactly when \<open>InstalledHash\<close> and \<open>LatestHash\<close> are the same string and "outdated"
  exactly when they differ; in the state at process start \<open>InstalledHash\<close> is \<^verbatim>\<open>None\<close> and
  \<open>LatestHash\<close> is \<^verbatim>\<open>Unknown\<close>, which differ, so the install is reported as outdated.
\<close>

theorem not_outdated_iff_same_hash:
  "(install_status s = ''up to date!'') = (InstalledHash s = LatestHash s)
   \<and> (install_status s = ''outdated!'') = (InstalledHash s \<noteq> LatestHash s)
   \<and> fst (InitGithubDownloader e s) = (\<not> IsDevInstall (snd (InitGithubDownloader e s)))
   \<and> InstalledHash (initial_state f) = ''None''
   \<and> LatestHash (initial_state f) = ''Unknown''
   \<and> install_status (initial_state f) = ''outdated!''"
proof -
  have "IsDevInstall (scanLocalInstall e s0) = IsDevInstall s0" for s0
    by (simp add: scanLocalInstall_def Let_def split: sum.splits option.splits)
  then have "fst (InitGithubDownloader e s) = (\<not> IsDevInstall (snd (InitGithubDownloader e s)))"
    by (simp add: InitGithubDownloader_def Let_def)
  then show ?thesis by (simp add: install_status_def initial_state_def)
qed

theorem not_outdated_iff_same_hash_witness:
  "InstalledHash (fetched_state\<lparr>InstalledHash := ''abc123''\<rparr>)
        = LatestHash (fetched_state\<lparr>InstalledHash := ''abc123''\<rparr>)
   \<and> install_status (fetched_state\<lparr>InstalledHash := ''abc123''\<rparr>) = ''up to date!''
   \<and> InstalledHash fetched_state \<noteq> LatestHash fetched_state
   \<and> install_status fetched_state = ''outdated!''
   \<and> fst (InitGithubDownloader example_env (initial_state example_files))
   \<and> \<not> IsDevInstall (snd (InitGithubDownloader example_env (initial_state example_files)))"
proof -
  have h: "InstalledHash (fetched_state\<lparr>InstalledHash := ''abc123''\<rparr>)
        = LatestHash (fetched_state\<lparr>InstalledHash := ''abc123''\<rparr>)"
      "InstalledHash fetched_state \<noteq> LatestHash fetched_state"
    by (simp_all add: fetched_state_def initial_state_def)
  have l: "fst (InitGithubDownloader example_env (initial_state example_files))"
    by (simp add: InitGithubDownloader_def example_env_def Let_def)
  from not_outdated_iff_same_hash [of "fetched_state\<lparr>InstalledHash := ''abc123''\<rparr>"] h(1)
  have a: "install_status (fetched_state\<lparr>InstalledHash := ''abc123''\<rparr>) = ''up to date!''"
    by blast
  from not_outdated_iff_same_hash [of fetched_state] h(2)
  have b: "install_status fetched_state = ''outdated!''" by blast
  from not_outdated_iff_same_hash [of "initial_state example_files" example_env] l
  have c: "\<not> IsDevInstall (snd (InitGithubDownloader example_env (initial_state example_files)))"
    by blast
  show ?thesis using h l a b c by simp
qed

section \<open>Replacing the running executable\<close>

lemma uitoa_last: "uitoa n \<noteq> [] \<and> last (uitoa n) = digit_char (n mod 10)"
  by (cases "n < 10") (simp_all add: uitoa_small uitoa_large)

lemma digit_char_not_d: "d < 10 \<Longrightarrow> digit_char d \<noteq> CHR ''d''"
proof -
  assume "d < 10"
  then have "(of_char (digit_char d) :: nat) = 48 + d" by (simp add: digit_char_def)
  moreover have "(of_char (CHR ''d'') :: nat) = 100" by simp
  ultimately show ?thesis using \<open>d < 10\<close> by force
qed

lemma joinPath_last: "name \<noteq> [] \<Longrightarrow> last (joinPath e dir name) = last name"
  by (simp add: joinPath_def)

lemma temp_name_not_old: "temp_name e dir pattern \<noteq> exe @ ''.old''"
proof -
  have ne: "pattern @ uitoa (TempRandom e) \<noteq> []" using uitoa_last by simp
  have "last (temp_name e dir pattern) = last (pattern @ uitoa (TempRandom e))"
    unfolding temp_name_def Let_def by (rule joinPath_last [OF ne])
  also have "\<dots> = digit_char (TempRandom e mod 10)" using uitoa_last by simp
  finally have "last (temp_name e dir pattern) \<noteq> CHR ''d''"
    using digit_char_not_d [of "TempRandom e mod 10"] by simp
  moreover have "last (exe @ ''.old'') = CHR ''d''" by simp
  ultimately show ?thesis by metis
qed

lemma os_CreateTemp_fresh:
  assumes "os_CreateTemp e dir pattern s = Inr (tmp, s2)"
  shows "tmp = temp_name e dir pattern \<and> files s tmp = None
         \<and> files s2 = (files s)(tmp \<mapsto> [])"
  using assms by (auto simp: os_CreateTemp_def Let_def split: option.splits if_splits)

text \<open>
  What \<open>replace_self\<close> leaves at the path of the executable and at its \<^verbatim>\<open>.old\<close> sibling when
  it fails.
\<close>

lemma replace_self_failure:
  assumes orig: "files s exe = Some orig"
      and tmp: "tmp \<noteq> exe" "tmp \<noteq> exe @ ''.old''"
      and r: "replace_self e exe tmp res s = (Some err, s3)"
  shows "files s3 exe = Some orig
       \<or> (Remove_err e exe \<noteq> None \<and> Rename_err e exe (exe @ ''.old'') = None
            \<and> Rename_err e tmp exe \<noteq> None
            \<and> files s3 exe = None \<and> files s3 (exe @ ''.old'') = Some orig)
       \<or> (Remove_err e exe = None \<and> Rename_err e tmp exe \<noteq> None \<and> files s3 exe = None)"
  using assms
  by (auto simp: replace_self_def io_Copy_def os_Remove_def os_Remove_with_def os_Rename_def Let_def
           split: option.splits if_splits prod.splits)

lemma deferred_cleanup_other:
  "p \<noteq> tmp \<Longrightarrow> files (deferred_cleanup e tmp s) p = files s p"
  by (auto simp: deferred_cleanup_def os_Remove_def os_Remove_with_def split: option.splits)

text \<open>
  C1, counterexample.  Where the running executable can be removed and the final rename is
  refused, \<open>UpdateSelf\<close> fails after staging the temporary file (the error is the
  final rename's) and neither the executable's path nor its \<^verbatim>\<open>.old\<close> sibling holds a file.
\<close>

theorem UpdateSelf_can_lose_the_executable:
  "CanUpdateSelf rename_denied_env outdated_state
   \<and> files outdated_state ''/opt/vi'' = Some ''old-binary''
   \<and> fst (UpdateSelf rename_denied_env outdated_state)
        = Some (fmt_Errorf
            ''failed to replace self with updated executable. Please manually redownload the installer''
            (SysError ''permission denied''))
   \<and> files (snd (UpdateSelf rename_denied_env outdated_state)) ''/opt/vi'' = None
   \<and> files (snd (UpdateSelf rename_denied_env outdated_state)) ''/opt/vi.old'' = None"
proof (intro conjI)
  show "CanUpdateSelf rename_denied_env outdated_state" by code_simp
  show "files outdated_state ''/opt/vi'' = Some ''old-binary''" by code_simp
  show "fst (UpdateSelf rename_denied_env outdated_state)
        = Some (fmt_Errorf
            ''failed to replace self with updated executable. Please manually redownload the installer''
            (SysError ''permission denied''))"
    by code_simp
  show "files (snd (UpdateSelf rename_denied_env outdated_state)) ''/opt/vi'' = None"
    by code_simp
  show "files (snd (UpdateSelf rename_denied_env outdated_state)) ''/opt/vi.old'' = None"
    by code_simp
qed

text \<open>
  C1, amended.  Whenever \<open>UpdateSelf\<close> fails, at whatever step, one of three things holds:
  the executable's path still holds the original file; or removing it was refused, the
  fallback rename went through and the final rename was refused, and the original is at
  the \<^verbatim>\<open>.old\<close> path; or removing it succeeded and the final rename was refused, and the
  executable's path is empty.
\<close>

theorem UpdateSelf_failure_keeps_original_unless_removed:
  assumes exe: "os_Executable e = Inr exe"
      and orig: "files s exe = Some orig"
      and fails: "UpdateSelf e s = (Some err, s')"
  shows "files s' exe = Some orig
       \<or> (Remove_err e exe \<noteq> None \<and> Rename_err e exe (exe @ ''.old'') = None
            \<and> Rename_err e (temp_name e (path_Dir e exe) ''VelocityInstallerUpdate'') exe \<noteq> None
            \<and> files s' exe = None \<and> files s' (exe @ ''.old'') = Some orig)
       \<or> (Remove_err e exe = None
            \<and> Rename_err e (temp_name e (path_Dir e exe) ''VelocityInstallerUpdate'') exe \<noteq> None
            \<and> files s' exe = None)"
proof -
  let ?url = "GetInstallerDownloadLink e"
  let ?tmp = "temp_name e (path_Dir e exe) ''VelocityInstallerUpdate''"
  obtain g s1 where g: "http_Get e ?url s = (g, s1)" by (cases "http_Get e ?url s")
  have f1: "files s1 = files s" using g by (auto simp: http_Get_def)
  consider (early) "\<not> CanUpdateSelf e s \<or> ?url = [] \<or> (\<exists>x. g = Inl x)"
    | (notemp) res x where "CanUpdateSelf e s" "?url \<noteq> []" "g = Inr res"
        "os_CreateTemp e (path_Dir e exe) ''VelocityInstallerUpdate'' s1 = Inl x"
    | (staged) res tmp s2 where "CanUpdateSelf e s" "?url \<noteq> []" "g = Inr res"
        "os_CreateTemp e (path_Dir e exe) ''VelocityInstallerUpdate'' s1 = Inr (tmp, s2)"
    by (cases g; cases "os_CreateTemp e (path_Dir e exe) ''VelocityInstallerUpdate'' s1") auto
  then show ?thesis
  proof cases
    case early
    then have "files s' = files s"
      using fails exe g f1 by (auto simp: UpdateSelf_def Let_def split: if_splits)
    then show ?thesis using orig by simp
  next
    case notemp
    then have "files s' = files s"
      using fails exe g f1 by (auto simp: UpdateSelf_def Let_def split: if_splits)
    then show ?thesis using orig by simp
  next
    case staged
    from os_CreateTemp_fresh [OF staged(4)]
    have t: "tmp = ?tmp" and fresh: "files s1 tmp = None"
      and f2: "files s2 = (files s1)(tmp \<mapsto> [])" by blast+
    have ne: "tmp \<noteq> exe" using fresh f1 orig by auto
    have no: "tmp \<noteq> exe @ ''.old''" using t temp_name_not_old by simp
    have o2: "files s2 exe = Some orig" using f2 f1 orig ne by simp
    obtain r s3 where rs: "replace_self e exe tmp res s2 = (r, s3)"
      by (cases "replace_self e exe tmp res s2")
    have res: "r = Some err" "s' = deferred_cleanup e tmp s3"
      using fails exe g staged rs by (auto simp: UpdateSelf_def Let_def)
    have k: "files s' exe = files s3 exe" "files s' (exe @ ''.old'') = files s3 (exe @ ''.old'')"
      using res(2) ne no deferred_cleanup_other [of _ tmp e s3] by auto
    from replace_self_failure [OF o2 ne no rs [unfolded res(1)]]
    show ?thesis unfolding k t [symmetric] .
  qed
qed

theorem UpdateSelf_failure_keeps_original_unless_removed_witness:
  "os_Executable locked_exe_env = Inr ''/opt/vi''
   \<and> files outdated_state ''/opt/vi'' = Some ''old-binary''
   \<and> fst (UpdateSelf locked_exe_env outdated_state)
        = Some (fmt_Errorf
            ''failed to replace self with updated executable. Please manually redownload the installer''
            (SysError ''permission denied''))
   \<and> files (snd (UpdateSelf locked_exe_env outdated_state)) ''/opt/vi'' = None
   \<and> files (snd (UpdateSelf locked_exe_env outdated_state)) ''/opt/vi.old'' = Some ''old-binary''
   \<and> os_Executable stuck_env = Inr ''/opt/vi''
   \<and> fst (UpdateSelf stuck_env outdated_state)
        = Some (fmt_Errorf ''failed to remove or rename own executable''
            (SysError ''permission denied''))
   \<and> files (snd (UpdateSelf stuck_env outdated_state)) ''/opt/vi'' = Some ''old-binary''"
proof -
  have x: "os_Executable locked_exe_env = Inr ''/opt/vi''" "os_Executable stuck_env = Inr ''/opt/vi''"
    by code_simp+
  have o: "files outdated_state ''/opt/vi'' = Some ''old-binary''" by code_simp
  have r1: "fst (UpdateSelf locked_exe_env outdated_state)
        = Some (fmt_Errorf
            ''failed to replace self with updated executable. Please manually redownload the installer''
            (SysError ''permission denied''))" by code_simp
  have r2: "fst (UpdateSelf stuck_env outdated_state)
        = Some (fmt_Errorf ''failed to remove or rename own executable''
            (SysError ''permission denied''))" by code_simp
  have gone: "files (snd (UpdateSelf locked_exe_env outdated_state)) ''/opt/vi'' \<noteq> Some ''old-binary''"
    by code_simp
  have rm: "Remove_err locked_exe_env ''/opt/vi'' \<noteq> None" "Remove_err stuck_env ''/opt/vi'' \<noteq> None"
      "Rename_err stuck_env ''/opt/vi'' (''/opt/vi'' @ ''.old'') \<noteq> None"
    by code_simp+
  have e1: "UpdateSelf locked_exe_env outdated_state
      = (Some (fmt_Errorf
            ''failed to replace self with updated executable. Please manually redownload the installer''
            (SysError ''permission denied'')), snd (UpdateSelf locked_exe_env outdated_state))"
    using r1 by (metis prod.collapse)
  have e2: "UpdateSelf stuck_env outdated_state
      = (Some (fmt_Errorf ''failed to remove or rename own executable''
            (SysError ''permission denied'')), snd (UpdateSelf stuck_env outdated_state))"
    using r2 by (metis prod.collapse)
  from UpdateSelf_failure_keeps_original_unless_removed [OF x(1) o e1] gone rm(1)
  have a: "files (snd (UpdateSelf locked_exe_env outdated_state)) ''/opt/vi'' = None
      \<and> files (snd (UpdateSelf locked_exe_env outdated_state)) (''/opt/vi'' @ ''.old'') = Some ''old-binary''"
    by blast
  from UpdateSelf_failure_keeps_original_unless_removed [OF x(2) o e2] rm(2,3)
  have b: "files (snd (UpdateSelf stuck_env outdated_state)) ''/opt/vi'' = Some ''old-binary''"
    by blast
  show ?thesis using x o r1 r2 a b by simp
qed

section \<open>The fetch task and its done-signal\<close>




lemma os_Rename_same_vars: "os_Rename e a b s = (r, s1) \<Longrightarrow> same_vars s s1"
  by (auto simp: os_Rename_def same_vars_def split: option.splits if_splits)









end
